theory Spec2Isabelle
  imports Complex_Main "HOL-Library.AList"
begin

section \<open>The sync engine of the desktop client (src/Client/src/sync.py)\<close>

text \<open>
  The class \<open>Sync\<close> reconciles a local folder with a remote filer. The development
  follows the source function by function. What the engine calls but does not define
  (hashlib's MD5, base64, the filer API, the rdiff library, the socket, the file system)
  enters as data: the library functions as the fields of a record, the answers of the
  collaborators as arguments, and the calls the engine makes as a log of events.
\<close>

subsection \<open>Bytes and the library functions the engine imports\<close>

type_synonym bytes = "char list"

text \<open>
  \<open>hashlib.md5\<close>, \<open>base64.b64decode\<close> and \<open>base64.b64encode\<close> are not code of the
  client. Every definition takes them as the record \<open>lib\<close>, and every theorem holds for
  whatever functions stand there. \<open>b64decode\<close> raises \<open>binascii.Error\<close> on a malformed
  string: that is the value \<open>None\<close>.
\<close>

record lib =
  md5 :: "bytes \<Rightarrow> bytes"
  b64decode :: "string \<Rightarrow> bytes option"
  b64encode :: "bytes \<Rightarrow> string"

text \<open>
  The exceptions the engine can raise and does not catch: \<open>StopIteration\<close> from \<open>next\<close>
  on an exhausted generator, \<open>IndexError\<close> from \<open>chunks[0]\<close> on an empty list,
  \<open>ValueError\<close> from unpacking an empty tuple, \<open>binascii.Error\<close> from \<open>b64decode\<close>, and \<open>OSError\<close> (with its errno) from \<open>os.remove\<close>.
\<close>

datatype py_error = StopIteration | IndexError | ValueError | Binascii_Error | OSError nat

subsection \<open>Reading a file in chunks\<close>

text \<open>
  \<open>iter(lambda: fi.read(size), b"")\<close>: the successive results of \<open>fi.read(size)\<close> up to
  the first empty one. \<open>read\<close> with a negative size returns the whole rest of the file,
  with size \<open>0\<close> it returns \<open>b""\<close> at once, and at the end of the file it returns \<open>b""\<close>.
\<close>

function file_chunks :: "int \<Rightarrow> bytes \<Rightarrow> bytes list" where
  "file_chunks sz bs =
     (if bs = [] \<or> sz = 0 then []
      else if sz < 0 then [bs]
      else take (nat sz) bs # file_chunks sz (drop (nat sz) bs))"
  by pat_completeness auto
termination
  by (relation "measure (\<lambda>(sz, bs). length bs)") auto

declare file_chunks.simps [simp del]

text \<open>
  A hash object of hashlib: \<open>update\<close> feeds bytes, and repeated calls are equivalent to
  one call with the concatenation of the arguments (the contract hashlib documents), so
  the object is the bytes fed so far and \<open>digest\<close> is \<open>md5\<close> of them.
\<close>

definition md5_new :: bytes where
  "md5_new = []"

definition md5_update :: "bytes \<Rightarrow> bytes \<Rightarrow> bytes" where
  "md5_update h chunk = h @ chunk"

definition md5_digest :: "lib \<Rightarrow> bytes \<Rightarrow> bytes" where
  "md5_digest L h = md5 L h"

definition hex_digit :: "nat \<Rightarrow> char" where
  "hex_digit n = ''0123456789abcdef'' ! (n mod 16)"

definition hexlify :: "bytes \<Rightarrow> string" where
  "hexlify bs = concat (map (\<lambda>c. [hex_digit (of_char c div 16), hex_digit (of_char c)]) bs)"

definition md5_hexdigest :: "lib \<Rightarrow> bytes \<Rightarrow> string" where
  "md5_hexdigest L h = hexlify (md5_digest L h)"

text \<open>
  \<open>md5_whole_file\<close> returns a \<open>str\<close> (the hex digest) or \<open>bytes\<close> (the digest); its flag
  \<open>bytes_\<close> is \<open>as_bytes\<close> here (a name cannot end in an underscore).
\<close>

datatype md5_result = Hexdigest string | Digest bytes

definition md5_whole_file :: "lib \<Rightarrow> bytes \<Rightarrow> bool \<Rightarrow> md5_result" where
  "md5_whole_file L file as_bytes =
     (let hash_md5 = foldl md5_update md5_new (file_chunks 16384 file)
      in if \<not> as_bytes then Hexdigest (md5_hexdigest L hash_md5)
         else Digest (md5_digest L hash_md5))"

text \<open>
  \<open>md5_file_generator\<close>: the values the generator yields, in order. The loop keeps the
  running hash \<open>whole_md5\<close> and yields the digest of each chunk; after the last chunk it
  yields the digest of the running hash.
\<close>

fun md5_file_generator_loop :: "lib \<Rightarrow> bytes \<Rightarrow> bytes list \<Rightarrow> bytes list" where
  "md5_file_generator_loop L whole_md5 [] = [md5_digest L whole_md5]"
| "md5_file_generator_loop L whole_md5 (chunk # rest) =
     md5_digest L (md5_update md5_new chunk)
       # md5_file_generator_loop L (md5_update whole_md5 chunk) rest"

definition md5_file_generator :: "lib \<Rightarrow> bytes \<Rightarrow> int \<Rightarrow> bytes list" where
  "md5_file_generator L file sz = md5_file_generator_loop L md5_new (file_chunks sz file)"

text \<open>\<open>next(generator)\<close>: the next value and the rest, or \<open>StopIteration\<close>.\<close>

definition next_gen :: "bytes list \<Rightarrow> py_error + (bytes \<times> bytes list)" where
  "next_gen g = (case g of [] \<Rightarrow> Inl StopIteration | d # g' \<Rightarrow> Inr (d, g'))"


subsection \<open>Receiving a file from the data channel\<close>

text \<open>
  \<open>receive_file\<close>: the socket is the sequence of the results of its \<open>recv\<close> calls, \<open>recv i\<close>
  being what the call number \<open>i\<close> returns. The result is the list of the buffers passed to
  \<open>file.write\<close>, in order; the \<open>while 1\<close> loop need not end, and then there is no result.
\<close>

partial_function (option) receive_loop :: "(nat \<Rightarrow> bytes) \<Rightarrow> nat \<Rightarrow> bytes list \<Rightarrow> bytes list option" where
  "receive_loop recv i written =
     (let buf = recv i
      in if buf = [] \<or> buf = ''stop'' then Some written
         else receive_loop recv (Suc i) (written @ [buf]))"

definition receive_file :: "(nat \<Rightarrow> bytes) \<Rightarrow> bytes list option" where
  "receive_file recv = receive_loop recv 0 []"

subsection \<open>Paths\<close>

definition remove_prefix :: "string \<Rightarrow> string \<Rightarrow> string" where
  "remove_prefix txt prefix =
     (if take (length prefix) txt = prefix then drop (length prefix) txt else txt)"

text \<open>\<open>s.replace('\\', '/')\<close>; the backslash is the character \<open>0x5C\<close>.\<close>

definition replace_backslashes :: "string \<Rightarrow> string" where
  "replace_backslashes s = map (\<lambda>c. if c = CHR 0x5C then CHR ''/'' else c) s"

subsection \<open>The remote listing and the difference of the two sides\<close>

text \<open>
  An entry of the filer's listing is a dictionary; the engine reads the keys \<open>Mode\<close>,
  \<open>FullPath\<close>, \<open>FileSize\<close>, \<open>Md5\<close> and \<open>chunks\<close>, and of a chunk \<open>e_tag\<close> and \<open>mtime\<close> (the
  filer's count of nanoseconds, a natural number).
\<close>

record chunk =
  e_tag :: string
  mtime :: nat

record entry =
  Mode :: int
  FullPath :: string
  FileSize :: int
  Md5 :: string
  chunks :: "chunk list"

record response =
  status_code :: int

text \<open>
  \<open>remote_files\<close> is a dictionary from relative paths to entries: an association list in
  insertion order, where storing under a key that is present replaces the value in place
  (\<open>AList.update\<close>), as a Python dictionary does.
\<close>

definition remote_files_of :: "string \<Rightarrow> entry list \<Rightarrow> (string \<times> entry) list" where
  "remote_files_of username listing =
     foldl (\<lambda>remote_files entry.
              if Mode entry \<le> 9999
              then AList.update (remove_prefix (FullPath entry) (''/'' @ username @ ''/'')) entry
                     remote_files
              else remote_files)
       [] listing"

text \<open>
  \<open>local_files\<close> is a Python set: a list without repetitions here. The order in which
  Python iterates over a set is unspecified; no statement below depends on the order.
  \<open>os.walk\<close> yields triples \<open>(dir_path, folders, filenames)\<close>; the loop stops after the
  first triple when \<open>recursive\<close> is false.
\<close>

fun local_files_of ::
  "string \<Rightarrow> bool \<Rightarrow> (string \<times> string list \<times> string list) list \<Rightarrow> string list \<Rightarrow> string list" where
  "local_files_of base_path recursive [] local_files = local_files"
| "local_files_of base_path recursive ((dir_path, folders, filenames) # rest) local_files =
     (let rel_path = remove_prefix (replace_backslashes dir_path) (base_path @ ''/'');
          local_files' = foldl (\<lambda>s file. List.insert (rel_path @ ''/'' @ file) s) local_files filenames
      in if \<not> recursive then local_files'
         else local_files_of base_path recursive rest local_files')"

text \<open>
  \<open>sync_folder_listing\<close>. The collaborators are arguments: \<open>username\<close> is
  \<open>self.API.username\<close>, \<open>filer_get_folder_listing\<close> the call of the API and \<open>walk\<close> is
  \<open>os.walk\<close>. The second component of the result is \<open>tuple()\<close> (here \<open>None\<close>) when the
  listing failed and the pair \<open>(base_path, local_only)\<close> otherwise.
\<close>

definition sync_folder_listing ::
  "string \<Rightarrow> (string \<Rightarrow> bool \<Rightarrow> response \<times> entry list)
     \<Rightarrow> (string \<Rightarrow> (string \<times> string list \<times> string list) list)
     \<Rightarrow> string \<Rightarrow> string \<Rightarrow> bool
     \<Rightarrow> response \<times> (string \<times> string list) option \<times> string list \<times> (string \<times> entry) list" where
  "sync_folder_listing username filer_get_folder_listing walk full_folder_path0 base_path0 recursive =
     (let base_path = replace_backslashes base_path0;
          full_folder_path = replace_backslashes full_folder_path0;
          rel_path = remove_prefix full_folder_path (base_path @ ''/'');
          (r, listing) = filer_get_folder_listing rel_path recursive
      in if status_code r \<ge> 300 then (r, None, [], [])
         else
           (let remote_files = remote_files_of username listing;
                local_files = local_files_of base_path recursive (walk full_folder_path) [];
                local_only = filter (\<lambda>l. l \<notin> set (map fst remote_files)) local_files;
                remote_only = filter (\<lambda>r. r \<notin> set local_files) (map fst remote_files);
                both = filter (\<lambda>(path, entry). path \<notin> set (remote_only @ local_only)) remote_files
            in (r, Some (base_path, local_only), remote_only, both)))"

subsection \<open>The collaborators of one sync attempt\<close>

text \<open>
  The calls the engine makes on the filer API, on rdiff and on the file system, in the
  order it makes them. \<open>Call_sync_both_file\<close> marks the entry into \<open>sync_both_file\<close>.
\<close>

datatype event =
    Filer_get_file_md5_tag string
  | Filer_remove_file_tags string
  | Filer_set_file_md5_tag string string
  | Rdiff_signature string string
  | Rdiff_delta string string string
  | Rdiff_patch string string string
  | Ws_make_version_delta string string
  | Filer_download_file string string
  | Ws_upload_new_file_version string string
  | Ws_download_new_file_version string string
  | Os_remove string
  | Os_renames string string
  | Print string
  | Filer_get_file_lock string
  | Filer_set_file_lock string
  | Call_sync_both_file string string
  | Sleep

text \<open>
  What the collaborators answer during one attempt on one file: the content-hash tag
  (\<open>filer_get_file_md5_tag(...)[1]\<close>), the integer status of each rdiff operation, the
  status code of each transfer, the paths the downloads return, and the errno of
  \<open>os.remove\<close> when it fails.
\<close>

record answers =
  md5_tag :: string
  signature_result :: int
  make_version_delta_status :: int
  downloaded_sig_path :: string
  delta_result :: int
  upload_new_version_status :: int
  download_new_version_status :: int
  downloaded_delta_path :: string
  patch_result :: int
  remove_errno :: "nat option"

text \<open>
  The local file during one attempt: its bytes and what \<open>os.path.getmtime\<close> returns, a
  float, which is a rational number.
\<close>

record local_file =
  content :: bytes
  getmtime :: rat

text \<open>\<open>silent_remove\<close>: \<open>ENOENT\<close> is 2; any other errno is raised again.\<close>

definition ENOENT :: nat where
  "ENOENT = 2"

definition silent_remove :: "nat option \<Rightarrow> py_error + unit" where
  "silent_remove failure =
     (case failure of
        None \<Rightarrow> Inr ()
      | Some errno \<Rightarrow> if errno \<noteq> ENOENT then Inl (OSError errno) else Inr ())"

definition sync_make_version_delta :: "string \<Rightarrow> answers \<Rightarrow> string \<Rightarrow> string \<Rightarrow> event list \<times> int" where
  "sync_make_version_delta temp_dir A filepath rel_path =
     (let sig_path = temp_dir @ ''/'' @ rel_path @ ''.sig'';
          res = signature_result A
      in if res \<noteq> 0 then ([Rdiff_signature filepath sig_path], 0)
         else if make_version_delta_status A \<noteq> 200
         then ([Rdiff_signature filepath sig_path, Ws_make_version_delta sig_path rel_path], 0)
         else ([Rdiff_signature filepath sig_path, Ws_make_version_delta sig_path rel_path], 1))"

definition sync_both_file_upload :: "string \<Rightarrow> answers \<Rightarrow> string \<Rightarrow> string \<Rightarrow> event list \<times> int" where
  "sync_both_file_upload temp_dir A filepath remote_path =
     (let sig_path = downloaded_sig_path A;
          delta_path = temp_dir @ ''/'' @ remote_path @ ''.delta'';
          evs = [Filer_download_file (remote_path @ ''.sig.v'') temp_dir,
                 Rdiff_delta sig_path filepath delta_path]
      in if delta_result A \<noteq> 0 then (evs, 0)
         else if upload_new_version_status A \<noteq> 200
         then (evs @ [Ws_upload_new_file_version delta_path remote_path], 0)
         else (evs @ [Ws_upload_new_file_version delta_path remote_path], 1))"

definition sync_both_file_download ::
  "string \<Rightarrow> answers \<Rightarrow> string \<Rightarrow> string \<Rightarrow> event list \<times> (py_error + int)" where
  "sync_both_file_download temp_dir A filepath remote_path =
     (let sig_path = temp_dir @ ''/'' @ remote_path @ ''.sig'';
          evs = [Rdiff_signature filepath sig_path,
                 Ws_download_new_file_version sig_path remote_path];
          delta_path = downloaded_delta_path A
      in if download_new_version_status A \<noteq> 200 then (evs, Inr 0)
         else
           (let new_filepath = filepath @ ''_2'';
                evs2 = evs @ [Rdiff_patch filepath delta_path new_filepath]
            in if patch_result A \<noteq> 0 then (evs2, Inr 0)
               else
                 (case silent_remove (remove_errno A) of
                    Inl e \<Rightarrow> (evs2 @ [Os_remove filepath], Inl e)
                  | Inr u \<Rightarrow>
                      (evs2 @ [Os_remove filepath, Os_renames new_filepath filepath], Inr 1))))"

subsection \<open>Comparing a file present on both sides\<close>

text \<open>
  \<open>chunks_md5s_equals\<close> walks the remote chunks and takes one value of the shared generator
  per chunk; it returns at the first difference. The generator it leaves behind is part
  of the result.
\<close>

fun chunks_md5s_equals :: "lib \<Rightarrow> chunk list \<Rightarrow> bytes list \<Rightarrow> (py_error + bool) \<times> bytes list" where
  "chunks_md5s_equals L [] g = (Inr True, g)"
| "chunks_md5s_equals L (remote_chunk_md5 # rest) g =
     (case b64decode L (e_tag remote_chunk_md5) of
        None \<Rightarrow> (Inl Binascii_Error, g)
      | Some d \<Rightarrow>
          (case next_gen g of
             Inl e \<Rightarrow> (Inl e, g)
           | Inr (x, g') \<Rightarrow>
               if d \<noteq> x then (Inr False, g') else chunks_md5s_equals L rest g'))"

text \<open>
  Lines 219 to 226: the entry's \<open>Md5\<close> is the string \<open>'None'\<close> when the filer holds no
  digest; then the tag is asked for, and a non-empty tag is written into the entry. The
  result is the calls made, the entry as it is afterwards, and \<open>remote_md5_is_none\<close>.
\<close>

definition resolve_remote_md5 :: "answers \<Rightarrow> string \<Rightarrow> entry \<Rightarrow> event list \<times> entry \<times> bool" where
  "resolve_remote_md5 A remote_path remote_meta =
     (if Md5 remote_meta = ''None'' then
        (let seaweed_md5 = md5_tag A
         in if seaweed_md5 \<noteq> []
            then ([Filer_get_file_md5_tag remote_path], remote_meta\<lparr>Md5 := seaweed_md5\<rparr>, False)
            else ([Filer_get_file_md5_tag remote_path], remote_meta, True))
      else ([], remote_meta, False))"

definition update_remote_md5 ::
  "lib \<Rightarrow> string \<Rightarrow> bool \<Rightarrow> bytes list \<Rightarrow> event list \<times> (py_error + bytes list)" where
  "update_remote_md5 L remote_path remote_md5_is_none g =
     (if remote_md5_is_none then
        (case next_gen g of
           Inl e \<Rightarrow> ([], Inl e)
         | Inr (x, g') \<Rightarrow> ([Filer_set_file_md5_tag remote_path (b64encode L x)], Inr g'))
      else ([], Inr g))"

text \<open>
  The condition of lines 235 to 237, with Python's evaluation order: the sizes first;
  when the digest is known the whole-file digest against the decoded \<open>Md5\<close>, and
  otherwise the chunk comparison.
\<close>

definition already_synced_condition ::
  "lib \<Rightarrow> bytes \<Rightarrow> entry \<Rightarrow> bool \<Rightarrow> bytes list \<Rightarrow> (py_error + bool) \<times> bytes list" where
  "already_synced_condition L file remote_meta remote_md5_is_none g =
     (if int (length file) = FileSize remote_meta then
        (if \<not> remote_md5_is_none then
           (case b64decode L (Md5 remote_meta) of
              None \<Rightarrow> (Inl Binascii_Error, g)
            | Some d \<Rightarrow> (Inr (md5_whole_file L file True = Digest d), g))
         else chunks_md5s_equals L (chunks remote_meta) g)
      else (Inr False, g))"

subsection \<open>Choosing the direction and transferring\<close>

text \<open>
  \<open>round(x, 0)\<close> of a float rounds to the nearest whole number, and a tie to the even
  one.
\<close>

definition py_round :: "rat \<Rightarrow> int" where
  "py_round x =
     (let f = \<lfloor>x\<rfloor>; d = x - of_int f
      in if d < 1 / 2 then f else if 1 / 2 < d then f + 1 else if even f then f else f + 1)"

text \<open>
  \<open>str(n)\<close> of a natural number, and \<open>float(s)\<close> of a string of decimal digits (the only
  strings that reach it: a prefix of \<open>str(mtime)\<close>). The value is a whole number of at
  most ten digits, which a float holds exactly, as it holds the sum with \<open>50.0\<close> and the
  rounded local time; the comparison is therefore the comparison of integers.
\<close>

definition digit_char :: "nat \<Rightarrow> char" where
  "digit_char d = ''0123456789'' ! d"

function py_str :: "nat \<Rightarrow> string" where
  "py_str n = (if n < 10 then [digit_char n] else py_str (n div 10) @ [digit_char (n mod 10)])"
  by pat_completeness auto
termination
  by (relation "measure (\<lambda>n. n)") auto

declare py_str.simps [simp del]

definition digit_value :: "char \<Rightarrow> nat" where
  "digit_value c = of_char c - 48"

definition py_float :: "string \<Rightarrow> int" where
  "py_float s = int (foldl (\<lambda>a c. 10 * a + digit_value c) 0 s)"

definition remote_mtime_of :: "chunk \<Rightarrow> int" where
  "remote_mtime_of c = py_float (take 10 (py_str (mtime c)))"

definition upload_branch :: "string \<Rightarrow> answers \<Rightarrow> string \<Rightarrow> string \<Rightarrow> event list \<times> (py_error + int)" where
  "upload_branch temp_dir A filepath remote_path =
     (let (evs1, r1) = sync_make_version_delta temp_dir A filepath remote_path
      in if r1 = 0 then (evs1, Inr 0)
         else
           (let (evs2, r2) = sync_both_file_upload temp_dir A filepath remote_path
            in if r2 = 0 then (evs1 @ evs2, Inr 0)
               else (evs1 @ evs2 @ [Print ''Success upload!''], Inr 1)))"

definition download_branch :: "string \<Rightarrow> answers \<Rightarrow> string \<Rightarrow> string \<Rightarrow> event list \<times> (py_error + int)" where
  "download_branch temp_dir A filepath remote_path =
     (case sync_both_file_download temp_dir A filepath remote_path of
        (evs, Inl e) \<Rightarrow> (evs, Inl e)
      | (evs, Inr r) \<Rightarrow>
          if r = 0 then (evs, Inr 0) else (evs @ [Print ''Success download!''], Inr 1))"

text \<open>Lines 244 to 255.\<close>

definition sync_transfer ::
  "string \<Rightarrow> answers \<Rightarrow> local_file \<Rightarrow> string \<Rightarrow> string \<Rightarrow> entry \<Rightarrow> event list \<times> (py_error + int)" where
  "sync_transfer temp_dir A file filepath remote_path remote_meta =
     (let local_mtime = py_round (getmtime file)
      in case chunks remote_meta of
           [] \<Rightarrow> ([], Inl IndexError)
         | c0 # cs \<Rightarrow>
             (let remote_mtime = remote_mtime_of c0
              in if local_mtime > remote_mtime + 50
                 then upload_branch temp_dir A filepath remote_path
                 else download_branch temp_dir A filepath remote_path))"

text \<open>
  \<open>sync_both_file\<close>. The result is the calls made, the entry \<open>remote_meta\<close> as the call
  leaves it (the dictionary is changed in place), and what the call returns or raises.
  Both \<open>return 1\<close> statements return the integer 1; the result tells them apart:
  \<open>Already_synced\<close> is the return of line 240, \<open>Transfer r\<close> the return of \<open>r\<close> from the
  transfer of lines 244 to 255.
\<close>

datatype outcome = Already_synced | Transfer int

fun return_value :: "outcome \<Rightarrow> int" where
  "return_value Already_synced = 1"
| "return_value (Transfer r) = r"

definition sync_both_file ::
  "lib \<Rightarrow> string \<Rightarrow> answers \<Rightarrow> local_file \<Rightarrow> string \<Rightarrow> string \<Rightarrow> entry
     \<Rightarrow> event list \<times> entry \<times> (py_error + outcome)" where
  "sync_both_file L temp_dir A file filepath remote_path remote_meta0 =
     (let file_md5_generator = md5_file_generator L (content file) 1048576;
          (evs1, remote_meta, remote_md5_is_none) = resolve_remote_md5 A remote_path remote_meta0
      in case already_synced_condition L (content file) remote_meta remote_md5_is_none
                file_md5_generator of
           (Inl e, g) \<Rightarrow> (evs1, remote_meta, Inl e)
         | (Inr True, g) \<Rightarrow>
             (case update_remote_md5 L remote_path remote_md5_is_none g of
                (evs2, Inl e) \<Rightarrow>
                  (evs1 @ [Filer_remove_file_tags remote_path] @ evs2, remote_meta, Inl e)
              | (evs2, Inr g') \<Rightarrow>
                  (evs1 @ [Filer_remove_file_tags remote_path] @ evs2, remote_meta,
                   Inr Already_synced))
         | (Inr False, g) \<Rightarrow>
             (case update_remote_md5 L remote_path remote_md5_is_none g of
                (evs2, Inl e) \<Rightarrow> (evs1 @ evs2, remote_meta, Inl e)
              | (evs2, Inr g') \<Rightarrow>
                  (case sync_transfer temp_dir A file filepath remote_path remote_meta of
                     (evs3, Inl e) \<Rightarrow> (evs1 @ evs2 @ evs3, remote_meta, Inl e)
                   | (evs3, Inr r) \<Rightarrow> (evs1 @ evs2 @ evs3, remote_meta, Inr (Transfer r)))))"

subsection \<open>The folder sync: locks, the pass over the files on both sides, the retries\<close>

text \<open>
  The engine: the imported library functions, the name of its temporary directory, and
  the client id and user name held by the API object.
\<close>

record engine =
  engine_lib :: lib
  engine_temp_dir :: string
  api_client_id :: string
  api_username :: string

text \<open>
  The surroundings of one iteration of the loop of \<open>sync_both_files\<close>: the owner the first
  \<open>filer_get_file_lock\<close> reports, the owner the second one reports (after
  \<open>filer_set_file_lock\<close>), the local file and the answers to \<open>sync_both_file\<close>. The
  engine is sequential, so its surroundings are a sequence: \<open>env k\<close> is what iteration
  number \<open>k\<close> of the whole run meets, whatever the other clients and the server do.
\<close>

record attempt =
  lock_before :: string
  lock_after :: string
  file_now :: local_file
  answers_now :: answers

text \<open>
  An item of \<open>both\<close> and of \<open>repeat\<close> is a tuple of a path and the entry's dictionary. Every
  tuple of a path holds the same dictionary, and \<open>sync_both_file\<close> writes a resolved tag
  into it (line 225), which a later attempt on the path reads. The store maps a path to
  the \<open>Md5\<close> written into its dictionary so far.
\<close>

type_synonym both_item = "string \<times> entry"

definition current_meta :: "(string \<rightharpoonup> string) \<Rightarrow> both_item \<Rightarrow> entry" where
  "current_meta store b =
     (case store (fst b) of None \<Rightarrow> snd b | Some v \<Rightarrow> (snd b)\<lparr>Md5 := v\<rparr>)"

definition lock_events :: "string \<Rightarrow> event list" where
  "lock_events remote_path =
     [Filer_get_file_lock remote_path, Filer_set_file_lock remote_path,
      Filer_get_file_lock remote_path]"

text \<open>
  \<open>sync_both_files\<close>, the inner function of \<open>sync_folder\<close>: one pass over \<open>both\<close>, which
  appends to \<open>repeat\<close>. The result is the exception that ended the pass (if one did),
  \<open>repeat\<close> and the store afterwards, and the calls of each iteration that ran.
\<close>

fun sync_both_files ::
  "engine \<Rightarrow> string \<Rightarrow> (nat \<Rightarrow> attempt) \<Rightarrow> nat \<Rightarrow> both_item list \<Rightarrow> both_item list
     \<Rightarrow> (string \<rightharpoonup> string)
     \<Rightarrow> py_error option \<times> both_item list \<times> (string \<rightharpoonup> string) \<times> event list list" where
  "sync_both_files E base_path env k [] repeat store = (None, repeat, store, [])"
| "sync_both_files E base_path env k (b # rest) repeat store =
     (let remote_path = fst b; remote_meta = current_meta store b; a = env k
      in if lock_before a \<noteq> [] then
           (case sync_both_files E base_path env (Suc k) rest (repeat @ [b]) store of
              (err, repeat', store', steps) \<Rightarrow>
                (err, repeat', store', [Filer_get_file_lock remote_path] # steps))
         else if lock_after a = api_client_id E then
           (case sync_both_file (engine_lib E) (engine_temp_dir E) (answers_now a) (file_now a)
                   (base_path @ ''/'' @ remote_path) remote_path remote_meta of
              (evs, meta', Inl e) \<Rightarrow>
                (Some e, repeat, store(remote_path \<mapsto> Md5 meta'),
                 [lock_events remote_path
                    @ [Call_sync_both_file (base_path @ ''/'' @ remote_path) remote_path] @ evs])
            | (evs, meta', Inr out) \<Rightarrow>
                (case sync_both_files E base_path env (Suc k) rest
                        (if return_value out = 0 then repeat @ [b] else repeat)
                        (store(remote_path \<mapsto> Md5 meta')) of
                   (err, repeat', store', steps) \<Rightarrow>
                     (err, repeat', store',
                      (lock_events remote_path
                         @ [Call_sync_both_file (base_path @ ''/'' @ remote_path) remote_path] @ evs)
                        # steps)))
         else
           (case sync_both_files E base_path env (Suc k) rest (repeat @ [b]) store of
              (err, repeat', store', steps) \<Rightarrow>
                (err, repeat', store', lock_events remote_path # steps)))"

text \<open>
  The loop \<open>while len(repeat) > 0\<close> of \<open>sync_folder\<close>: sleep, copy \<open>repeat\<close> into \<open>both\<close>, run
  the pass again. The loop need not end; \<open>None\<close> is the run that never returns.
\<close>

partial_function (option) retry_loop ::
  "engine \<Rightarrow> string \<Rightarrow> (nat \<Rightarrow> attempt) \<Rightarrow> nat \<Rightarrow> both_item list \<Rightarrow> (string \<rightharpoonup> string)
     \<Rightarrow> (py_error + int) option" where
  "retry_loop E base_path env k repeat store =
     (if length repeat > 0 then
        (case sync_both_files E base_path env k repeat repeat store of
           (None, repeat', store', steps) \<Rightarrow>
             retry_loop E base_path env (k + length repeat) repeat' store'
         | (Some e, repeat', store', steps) \<Rightarrow> Some (Inl e))
      else Some (Inr 1))"

text \<open>
  \<open>sync_folder\<close>. The worker pool that uploads \<open>local_only\<close> and downloads \<open>remote_only\<close>
  runs between the listing and the first pass; the engine discards what its tasks
  return and raise, so the pool has no part in the result and is left out.
\<close>

definition sync_folder ::
  "engine \<Rightarrow> (string \<Rightarrow> bool \<Rightarrow> response \<times> entry list)
     \<Rightarrow> (string \<Rightarrow> (string \<times> string list \<times> string list) list)
     \<Rightarrow> (nat \<Rightarrow> attempt) \<Rightarrow> string \<Rightarrow> string \<Rightarrow> bool \<Rightarrow> (py_error + int) option" where
  "sync_folder E filer_get_folder_listing walk env full_folder_path base_path0 recursive =
     (case sync_folder_listing (api_username E) filer_get_folder_listing walk full_folder_path
             base_path0 recursive of
        (r, local, remote_only, both) \<Rightarrow>
          if status_code r \<ge> 300 then Some (Inr 0)
          else
            (case local of
               None \<Rightarrow> Some (Inl ValueError)
             | Some (base_path, local_only) \<Rightarrow>
                 (case sync_both_files E base_path env 0 both [] Map.empty of
                    (None, repeat, store, steps) \<Rightarrow>
                      retry_loop E base_path env (length both) repeat store
                  | (Some e, repeat, store, steps) \<Rightarrow> Some (Inl e))))"

subsection \<open>The statements of the specification, in its own words\<close>

text \<open>
  The digest that is known before the comparison: the entry's \<open>Md5\<close> unless it is the
  marker, else the tag the store holds unless it is empty.
\<close>

definition known_digest :: "entry \<Rightarrow> string \<Rightarrow> string option" where
  "known_digest remote_meta tag =
     (if Md5 remote_meta \<noteq> ''None'' then Some (Md5 remote_meta)
      else if tag \<noteq> [] then Some tag else None)"

text \<open>The byte range number \<open>i\<close> of the local file, in ranges of 1048576 bytes.\<close>

definition local_range :: "bytes \<Rightarrow> nat \<Rightarrow> bytes" where
  "local_range file i = take 1048576 (drop (i * 1048576) file)"

text \<open>
  "Already synced": the sizes are equal and, when a whole-file digest is known, the MD5
  of the local file equals it; when none is known, every remote chunk has a local byte
  range and its digest equals the MD5 of that range.
\<close>

definition spec_already_synced :: "lib \<Rightarrow> bytes \<Rightarrow> entry \<Rightarrow> string \<Rightarrow> bool" where
  "spec_already_synced L file remote_meta tag =
     (int (length file) = FileSize remote_meta \<and>
      (case known_digest remote_meta tag of
         Some s \<Rightarrow> b64decode L s = Some (md5 L file)
       | None \<Rightarrow>
           list_all
             (\<lambda>i. i * 1048576 < length file \<and>
                  b64decode L (e_tag (chunks remote_meta ! i)) = Some (md5 L (local_range file i)))
             [0..<length (chunks remote_meta)]))"

text \<open>
  The first \<open>k\<close> decimal digits of a number, as a number: digits are dropped at the end
  until at most \<open>k\<close> are left.
\<close>

function leading_digits :: "nat \<Rightarrow> nat \<Rightarrow> nat" where
  "leading_digits k n = (if n < 10 ^ k then n else leading_digits k (n div 10))"
  by pat_completeness auto
termination
proof (relation "measure (\<lambda>(k, n). n)")
  show "wf (measure (\<lambda>(k, n). n))" by simp
next
  fix k n :: nat
  assume "\<not> n < 10 ^ k"
  then have "0 < n" by (cases "n = 0") simp_all
  then show "((k, n div 10), (k, n)) \<in> measure (\<lambda>(k, n). n)" by simp
qed

declare leading_digits.simps [simp del]

text \<open>
  A read that ends the receiver loop: it returns zero bytes or the literal byte sequence
  \<open>stop\<close>.
\<close>

definition stop_read :: "bytes \<Rightarrow> bool" where
  "stop_read buf = (buf = [] \<or> buf = ''stop'')"

datatype direction = Upload | Download

text \<open>The direction of the specification: upload exactly when \<open>t_local > t_remote + 50\<close>.\<close>

definition chooseDirection :: "int \<Rightarrow> int \<Rightarrow> direction" where
  "chooseDirection t_local t_remote = (if t_local > t_remote + 50 then Upload else Download)"

text \<open>
  The relative paths of the two sides: of the remote side the paths of the listing's file
  entries (\<open>Mode\<close> at most 9999) without the prefix of the user's root; of the local side
  the files of the walked directories (of the first one only when not recursive), each
  under its directory's path without the base prefix.
\<close>

definition remote_paths :: "string \<Rightarrow> entry list \<Rightarrow> string set" where
  "remote_paths username listing =
     (\<lambda>e. remove_prefix (FullPath e) (''/'' @ username @ ''/'')) ` {e \<in> set listing. Mode e \<le> 9999}"

definition local_paths :: "string \<Rightarrow> bool \<Rightarrow> (string \<times> string list \<times> string list) list \<Rightarrow> string set" where
  "local_paths base_path recursive dirs =
     (\<Union>(dir_path, folders, filenames) \<in> set (if recursive then dirs else take 1 dirs).
        (\<lambda>file. remove_prefix (replace_backslashes dir_path) (base_path @ ''/'') @ ''/'' @ file)
          ` set filenames)"

subsection \<open>Concrete inputs\<close>

text \<open>
  A library to evaluate the definitions with: the digest of a byte string is the string
  itself, so that no two byte strings share a digest, and base64 leaves a string as it
  is. What the evaluations below use of it is that two different inputs at hand have
  different digests, as they have under MD5.
\<close>

definition plain_lib :: lib where
  "plain_lib = \<lparr>md5 = (\<lambda>bs. bs), b64decode = Some, b64encode = (\<lambda>bs. bs)\<rparr>"

text \<open>A socket that delivers \<open>ab\<close>, then \<open>stop\<close>, then \<open>cd\<close> for ever.\<close>

definition recv_example :: "nat \<Rightarrow> bytes" where
  "recv_example i = (if i = 0 then ''ab'' else if i = 1 then ''stop'' else ''cd'')"

text \<open>
  A listing with two files and a directory, a fetch of the listing that fails, and a
  local folder (given with backslashes) that holds the files \<open>a\<close> and \<open>c\<close>.
\<close>

definition entry_a :: entry where
  "entry_a = \<lparr>Mode = 420, FullPath = ''/u/d/a'', FileSize = 1, Md5 = ''None'', chunks = []\<rparr>"

definition entry_b :: entry where
  "entry_b = \<lparr>Mode = 420, FullPath = ''/u/d/b'', FileSize = 2, Md5 = ''None'', chunks = []\<rparr>"

definition entry_dir :: entry where
  "entry_dir = \<lparr>Mode = 2147484141, FullPath = ''/u/d/sub'', FileSize = 0, Md5 = ''None'', chunks = []\<rparr>"

definition listing_example :: "string \<Rightarrow> bool \<Rightarrow> response \<times> entry list" where
  "listing_example rel_path recursive = (\<lparr>status_code = 200\<rparr>, [entry_a, entry_dir, entry_b])"

definition listing_failed :: "string \<Rightarrow> bool \<Rightarrow> response \<times> entry list" where
  "listing_failed rel_path recursive = (\<lparr>status_code = 500\<rparr>, [])"

definition walk_example :: "string \<Rightarrow> (string \<times> string list \<times> string list) list" where
  "walk_example root_dir = [(root_dir, [''sub''], [''a'', ''c''])]"

definition base_example :: string where
  "base_example = ''C:'' @ [CHR 0x5C] @ ''home''"

definition folder_example :: string where
  "folder_example = ''C:'' @ [CHR 0x5C] @ ''home'' @ [CHR 0x5C] @ ''d''"

text \<open>
  Answers of collaborators that all succeed and hold no tag, a local file \<open>abc\<close>, a
  remote entry of the same size with one chunk whose digest is the file's, and one with no
  chunk at all.
\<close>

definition answers_example :: answers where
  "answers_example =
     \<lparr>md5_tag = [], signature_result = 0, make_version_delta_status = 200,
      downloaded_sig_path = ''/tmp/t/d/a.sig.v'', delta_result = 0,
      upload_new_version_status = 200, download_new_version_status = 200,
      downloaded_delta_path = ''/tmp/t/d/a.delta'', patch_result = 0, remove_errno = None\<rparr>"

definition file_example :: local_file where
  "file_example = \<lparr>content = ''abc'', getmtime = 1700000000\<rparr>"

definition meta_one_chunk :: entry where
  "meta_one_chunk =
     \<lparr>Mode = 420, FullPath = ''/u/d/a'', FileSize = 3, Md5 = ''None'',
      chunks = [\<lparr>e_tag = ''abc'', mtime = 1700000000123456789\<rparr>]\<rparr>"

definition meta_no_chunk :: entry where
  "meta_no_chunk =
     \<lparr>Mode = 420, FullPath = ''/u/d/a'', FileSize = 3, Md5 = ''None'', chunks = []\<rparr>"

text \<open>
  A local file of 1048577 bytes, one more than a chunk, with a remote entry of another
  size, and with a remote entry of the same size whose first chunk has another digest.
\<close>

definition big_file :: local_file where
  "big_file = \<lparr>content = replicate 1048577 (CHR ''a''), getmtime = 1700000000\<rparr>"

definition meta_other_size :: entry where
  "meta_other_size =
     \<lparr>Mode = 420, FullPath = ''/u/d/a'', FileSize = 5, Md5 = ''None'',
      chunks = [\<lparr>e_tag = ''x'', mtime = 1700000000123456789\<rparr>]\<rparr>"

definition meta_other_chunk :: entry where
  "meta_other_chunk =
     \<lparr>Mode = 420, FullPath = ''/u/d/a'', FileSize = 1048577, Md5 = ''None'',
      chunks = [\<lparr>e_tag = ''x'', mtime = 1700000000123456789\<rparr>,
                \<lparr>e_tag = ''a'', mtime = 1700000000123456789\<rparr>]\<rparr>"

text \<open>
  Local files whose modification time is a quarter of a second, and a whole second, past
  the fiftieth second after 1700000000.
\<close>

definition file_quarter :: local_file where
  "file_quarter = \<lparr>content = ''abcd'', getmtime = 1700000050 + 1 / 4\<rparr>"

definition file_later :: local_file where
  "file_later = \<lparr>content = ''abcd'', getmtime = 1700000051\<rparr>"

text \<open>
  An engine with the client id \<open>me\<close>, the file \<open>d/a\<close> of the listing above as an item of
  \<open>both\<close>, a local file of one byte, and three surroundings of an iteration: the lock is
  held by another client; the lock is free and is read back as the engine's own; the lock
  is free and is read back as another client's.
\<close>

definition engine_example :: engine where
  "engine_example =
     \<lparr>engine_lib = plain_lib, engine_temp_dir = ''/tmp/t'', api_client_id = ''me'',
      api_username = ''u''\<rparr>"

definition item_a :: both_item where
  "item_a = (''d/a'', entry_a)"

definition file_x :: local_file where
  "file_x = \<lparr>content = ''x'', getmtime = 1700000000\<rparr>"

definition attempt_locked :: attempt where
  "attempt_locked =
     \<lparr>lock_before = ''other'', lock_after = ''other'', file_now = file_x,
      answers_now = answers_example\<rparr>"

definition attempt_free :: attempt where
  "attempt_free =
     \<lparr>lock_before = [], lock_after = ''me'', file_now = file_x, answers_now = answers_example\<rparr>"

definition attempt_lost :: attempt where
  "attempt_lost =
     \<lparr>lock_before = [], lock_after = ''other'', file_now = file_x, answers_now = answers_example\<rparr>"

text \<open>A run in which the lock is free at first and lost to another client afterwards.\<close>

definition env_race :: "nat \<Rightarrow> attempt" where
  "env_race k = (if k = 0 then attempt_free else attempt_lost)"

text \<open>
  Answers in which \<open>rdiff.signature\<close> fails and every other call succeeds, and the run of
  an engine that holds the lock and meets these answers.
\<close>

definition answers_bad_signature :: answers where
  "answers_bad_signature = answers_example\<lparr>signature_result := 1\<rparr>"

definition env_bad_signature :: "nat \<Rightarrow> attempt" where
  "env_bad_signature k =
     \<lparr>lock_before = [], lock_after = ''me'', file_now = file_example,
      answers_now = answers_bad_signature\<rparr>"

text \<open>
  A run in which another client holds the lock during the first pass and the lock is free
  ever after.
\<close>

definition env_retry :: "nat \<Rightarrow> attempt" where
  "env_retry k = (if k = 0 then attempt_locked else attempt_free)"

section \<open>Properties\<close>

subsection \<open>Chunked reading\<close>

lemma concat_file_chunks: "sz \<noteq> 0 \<Longrightarrow> concat (file_chunks sz bs) = bs"
proof (induction sz bs rule: file_chunks.induct)
  case (1 sz bs)
  show ?case
  proof (cases "bs = []")
    case True
    then show ?thesis by (simp add: file_chunks.simps)
  next
    case False
    show ?thesis
    proof (cases "sz < 0")
      case True
      with False show ?thesis by (simp add: file_chunks.simps [of sz bs])
    next
      case pos: False
      with False "1.prems" have "concat (file_chunks sz (drop (nat sz) bs)) = drop (nat sz) bs"
        using "1.IH" by simp
      with False pos "1.prems" show ?thesis
        by (simp add: file_chunks.simps [of sz bs])
    qed
  qed
qed


lemma foldl_md5_update: "foldl md5_update h cs = h @ concat cs"
  by (induction cs arbitrary: h) (simp_all add: md5_update_def)

lemma md5_file_generator_loop_eq:
  "md5_file_generator_loop L h cs = map (md5 L) cs @ [md5 L (h @ concat cs)]"
  by (induction cs arbitrary: h) (simp_all add: md5_update_def md5_digest_def md5_new_def)

lemma md5_whole_file_digest: "md5_whole_file L file True = Digest (md5 L file)"
  by (simp add: md5_whole_file_def foldl_md5_update md5_new_def md5_digest_def concat_file_chunks)

lemma md5_file_generator_eq:
  "sz \<noteq> 0 \<Longrightarrow>
   md5_file_generator L file sz = map (md5 L) (file_chunks sz file) @ [md5 L file]"
  by (simp add: md5_file_generator_def md5_file_generator_loop_eq md5_new_def concat_file_chunks)

subsection \<open>The chunked digests end with the digest of the whole file\<close>




subsection \<open>The receiver loop\<close>

lemma receive_loop_some_stop:
  assumes "receive_loop recv i written = Some y"
  shows "\<exists>n\<ge>i. stop_read (recv n)"
proof -
  have "\<exists>n\<ge>i. stop_read (recv n)"
  proof (rule receive_loop.raw_induct [where P = "\<lambda>r j w y. \<exists>n\<ge>j. stop_read (r n)", OF _ assms])
    fix rl :: "(nat \<Rightarrow> bytes) \<Rightarrow> nat \<Rightarrow> bytes list \<Rightarrow> bytes list option"
      and r j w z
    assume IH: "\<And>r j w z. rl r j w = Some z \<Longrightarrow> \<exists>n\<ge>j. stop_read (r n)"
      and body: "(let buf = r j in if buf = [] \<or> buf = ''stop'' then Some w
                  else rl r (Suc j) (w @ [buf])) = Some z"
    show "\<exists>n\<ge>j. stop_read (r n)"
    proof (cases "stop_read (r j)")
      case True
      then show ?thesis by blast
    next
      case False
      then have c: "\<not> (r j = [] \<or> r j = ''stop'')" unfolding stop_read_def .
      from body have "rl r (Suc j) (w @ [r j]) = Some z"
        unfolding Let_def if_not_P [OF c] .
      from IH [OF this] obtain n where "Suc j \<le> n" "stop_read (r n)" by blast
      then have "j \<le> n" by simp
      with \<open>stop_read (r n)\<close> show ?thesis by blast
    qed
  qed
  then show ?thesis .
qed


lemma receive_loop_stop: "stop_read (recv i) \<Longrightarrow> receive_loop recv i written = Some written"
  by (subst receive_loop.simps) (simp add: stop_read_def)

lemma receive_loop_step:
  "\<not> stop_read (recv i) \<Longrightarrow>
   receive_loop recv i written = receive_loop recv (Suc i) (written @ [recv i])"
  by (subst receive_loop.simps) (simp add: stop_read_def)

lemma receive_loop_reaches:
  assumes "stop_read (recv (i + d))" and "\<And>j. i \<le> j \<Longrightarrow> j < i + d \<Longrightarrow> \<not> stop_read (recv j)"
  shows "receive_loop recv i written = Some (written @ map recv [i..<i + d])"
  using assms
proof (induction d arbitrary: i written)
  case 0
  then show ?case by (simp add: receive_loop_stop)
next
  case (Suc d)
  have ns: "\<not> stop_read (recv i)" using Suc.prems(2) [of i] by simp
  have "receive_loop recv (Suc i) (written @ [recv i])
        = Some ((written @ [recv i]) @ map recv [Suc i..<Suc i + d])"
  proof (rule Suc.IH)
    show "stop_read (recv (Suc i + d))" using Suc.prems(1) by simp
  next
    fix j assume "Suc i \<le> j" "j < Suc i + d"
    then show "\<not> stop_read (recv j)" using Suc.prems(2) [of j] by simp
  qed
  moreover have "[i..<i + Suc d] = i # [Suc i..<Suc i + d]"
    by (subst upt_rec) simp
  ultimately show ?case
    using ns receive_loop_step [of recv i written] by simp
qed

text \<open>
  Claim C9: \<open>receive_file\<close> returns exactly when some read is a stop read (zero bytes or
  \<open>stop\<close>), and then it has written the buffers read before the first stop read, in
  order, and nothing else: neither the stop read nor anything read after it. The
  function knows no payload length, so it stops there however few bytes it has read.
  When no read is a stop read the loop never ends.
\<close>

theorem receive_file_writes_the_reads_before_the_first_stop:
  "receive_file recv =
     (if \<exists>n. stop_read (recv n)
      then Some (map recv [0..<(LEAST n. stop_read (recv n))])
      else None)"
proof (cases "\<exists>n. stop_read (recv n)")
  case True
  then obtain n where n: "stop_read (recv n)" ..
  define m where "m = (LEAST n. stop_read (recv n))"
  have m: "stop_read (recv m)" unfolding m_def using n by (rule LeastI)
  have before: "\<not> stop_read (recv j)" if "j < m" for j
    using that not_less_Least [of j "\<lambda>n. stop_read (recv n)"] unfolding m_def by blast
  have "receive_loop recv 0 [] = Some ([] @ map recv [0..<0 + m])"
  proof (rule receive_loop_reaches)
    show "stop_read (recv (0 + m))" using m by simp
  next
    fix j assume "j < 0 + m"
    then show "\<not> stop_read (recv j)" using before by simp
  qed
  then have "receive_file recv = Some (map recv [0..<m])"
    by (simp add: receive_file_def)
  with True show ?thesis unfolding m_def by simp
next
  case False
  have "receive_loop recv 0 [] = None"
  proof (cases "receive_loop recv 0 []")
    case None
    then show ?thesis .
  next
    case (Some y)
    from receive_loop_some_stop [OF this] False show ?thesis by blast
  qed
  with False show ?thesis by (simp add: receive_file_def)
qed

text \<open>The theorem at the socket that delivers \<open>ab\<close>, \<open>stop\<close>, \<open>cd\<close>, ...: only \<open>ab\<close> is written.\<close>

theorem receive_file_witness:
  "(\<exists>n. stop_read (recv_example n)) \<and> receive_file recv_example = Some [''ab'']"
proof -
  have s1: "stop_read (recv_example 1)" by (simp add: stop_read_def recv_example_def)
  have l: "(LEAST n. stop_read (recv_example n)) = 1"
  proof (rule Least_equality)
    show "stop_read (recv_example 1)" by (rule s1)
  next
    fix y assume "stop_read (recv_example y)"
    moreover have "\<not> stop_read (recv_example 0)"
      by (simp add: stop_read_def recv_example_def)
    ultimately show "1 \<le> y" by (cases y) simp_all
  qed
  have ex: "\<exists>n. stop_read (recv_example n)" using s1 by blast
  have "receive_file recv_example = Some (map recv_example [0..<1])"
    using receive_file_writes_the_reads_before_the_first_stop [of recv_example] ex l by simp
  then show ?thesis using ex by (simp add: recv_example_def)
qed

subsection \<open>The difference of the two listings\<close>

lemma set_foldl_insert: "set (foldl (\<lambda>s x. List.insert (f x) s) acc xs) = set acc \<union> f ` set xs"
  by (induction xs arbitrary: acc) auto

lemma set_local_files_of:
  "set (local_files_of base_path recursive dirs acc) = set acc \<union> local_paths base_path recursive dirs"
proof (induction dirs arbitrary: acc)
  case Nil
  then show ?case by (simp add: local_paths_def)
next
  case (Cons d dirs)
  obtain dir_path folders filenames where d: "d = (dir_path, folders, filenames)"
    by (cases d)
  show ?case
  proof (cases recursive)
    case True
    then show ?thesis
      using Cons.IH by (auto simp: d local_paths_def Let_def set_foldl_insert)
  next
    case False
    then show ?thesis
      by (auto simp: d local_paths_def Let_def set_foldl_insert)
  qed
qed

lemma remote_files_of_fold:
  "fst ` set (foldl (\<lambda>remote_files entry.
              if Mode entry \<le> 9999
              then AList.update (remove_prefix (FullPath entry) (''/'' @ username @ ''/'')) entry
                     remote_files
              else remote_files) acc listing)
   = fst ` set acc \<union> remote_paths username listing"
proof (induction listing arbitrary: acc)
  case Nil
  then show ?case by (simp add: remote_paths_def)
next
  case (Cons e es)
  show ?case
    by (simp add: Cons.IH dom_update remote_paths_def) auto
qed

lemma remote_files_of_paths: "fst ` set (remote_files_of username listing) = remote_paths username listing"
  by (simp add: remote_files_of_def remote_files_of_fold)

text \<open>
  Claim C4: the listing is fetched once, for the folder's path relative to the base. When
  the response of that fetch signals failure (status code 300 or more), the result is that
  response with an empty tuple and two empty lists. When it does not, the result is that
  response with \<open>local_only\<close>, \<open>remote_only\<close> and \<open>both\<close>: the three are pairwise disjoint,
  their union is the union of the local and the remote relative paths, and \<open>both\<close> holds
  the paths on both sides; a path is on a side when it equals a path of that side after
  the prefixes are removed.
\<close>

theorem sync_folder_listing_partition:
  assumes "filer_get_folder_listing
             (remove_prefix (replace_backslashes full_folder_path)
                (replace_backslashes base_path @ ''/'')) recursive = (r, listing)"
  shows "if status_code r \<ge> 300
         then sync_folder_listing username filer_get_folder_listing walk full_folder_path
                base_path recursive = (r, None, [], [])
         else (\<exists>local_only remote_only both.
                 sync_folder_listing username filer_get_folder_listing walk full_folder_path
                   base_path recursive
                   = (r, Some (replace_backslashes base_path, local_only), remote_only, both) \<and>
                 set local_only \<inter> set remote_only = {} \<and>
                 set local_only \<inter> fst ` set both = {} \<and>
                 set remote_only \<inter> fst ` set both = {} \<and>
                 set local_only \<union> set remote_only \<union> fst ` set both
                   = local_paths (replace_backslashes base_path) recursive
                       (walk (replace_backslashes full_folder_path))
                     \<union> remote_paths username listing \<and>
                 fst ` set both
                   = local_paths (replace_backslashes base_path) recursive
                       (walk (replace_backslashes full_folder_path))
                     \<inter> remote_paths username listing)"
proof -
  let ?base = "replace_backslashes base_path"
  let ?full = "replace_backslashes full_folder_path"
  note api = assms
  let ?remote_files = "remote_files_of username listing"
  let ?local_files = "local_files_of ?base recursive (walk ?full) []"
  let ?L = "local_paths ?base recursive (walk ?full)"
  let ?R = "remote_paths username listing"
  have L: "set ?local_files = ?L" by (simp add: set_local_files_of)
  have R: "fst ` set ?remote_files = ?R" by (rule remote_files_of_paths)
  show ?thesis
  proof (cases "status_code r \<ge> 300")
    case True
    with api show ?thesis
      by (simp add: sync_folder_listing_def Let_def)
  next
    case False
    define lo where "lo = filter (\<lambda>l. l \<notin> set (map fst ?remote_files)) ?local_files"
    define ro where "ro = filter (\<lambda>r. r \<notin> set ?local_files) (map fst ?remote_files)"
    define bo where "bo = filter (\<lambda>(path, entry). path \<notin> set (ro @ lo)) ?remote_files"
    have res: "sync_folder_listing username filer_get_folder_listing walk full_folder_path base_path
            recursive = (r, Some (?base, lo), ro, bo)"
      using False by (simp add: sync_folder_listing_def Let_def api lo_def ro_def bo_def)
    have lo: "set lo = ?L - ?R" using L R by (auto simp: lo_def)
    have ro: "set ro = ?R - ?L" using L R by (auto simp: ro_def)
    have "fst ` set bo = {p \<in> fst ` set ?remote_files. p \<notin> set (ro @ lo)}"
      unfolding bo_def by force
    then have both: "fst ` set bo = ?R \<inter> ?L"
      using lo ro R by auto
    have parts: "set lo \<inter> set ro = {}" "set lo \<inter> fst ` set bo = {}" "set ro \<inter> fst ` set bo = {}"
      "set lo \<union> set ro \<union> fst ` set bo = ?L \<union> ?R"
      "fst ` set bo = ?L \<inter> ?R"
      unfolding lo ro both by blast+
    have "\<exists>local_only remote_only both.
            sync_folder_listing username filer_get_folder_listing walk full_folder_path
              base_path recursive = (r, Some (?base, local_only), remote_only, both) \<and>
            set local_only \<inter> set remote_only = {} \<and>
            set local_only \<inter> fst ` set both = {} \<and>
            set remote_only \<inter> fst ` set both = {} \<and>
            set local_only \<union> set remote_only \<union> fst ` set both = ?L \<union> ?R \<and>
            fst ` set both = ?L \<inter> ?R"
      using res parts by blast
    with False show ?thesis by (simp only: if_False)
  qed
qed

text \<open>
  The theorem at the example, where \<open>d/c\<close> is local only, \<open>d/b\<close> remote only and \<open>d/a\<close> on
  both sides, and at a fetch that fails.
\<close>

lemma listing_example_result:
  "sync_folder_listing ''u'' listing_example walk_example folder_example base_example True
   = (\<lparr>status_code = 200\<rparr>, Some (''C:/home'', [''d/c'']), [''d/b''], [(''d/a'', entry_a)])"
  by (simp add: sync_folder_listing_def listing_example_def walk_example_def folder_example_def
      base_example_def replace_backslashes_def remove_prefix_def remote_files_of_def Let_def
      entry_a_def entry_b_def entry_dir_def)

theorem sync_folder_listing_witness:
  "sync_folder_listing ''u'' listing_example walk_example folder_example base_example True
     = (\<lparr>status_code = 200\<rparr>, Some (''C:/home'', [''d/c'']), [''d/b''], [(''d/a'', entry_a)])
   \<and> set [''d/c''] \<inter> set [''d/b''] = {}
   \<and> set [''d/c''] \<inter> fst ` set [(''d/a'', entry_a)] = {}
   \<and> set [''d/b''] \<inter> fst ` set [(''d/a'', entry_a)] = {}
   \<and> set [''d/c''] \<union> set [''d/b''] \<union> fst ` set [(''d/a'', entry_a)]
       = local_paths ''C:/home'' True (walk_example ''C:/home/d'')
         \<union> remote_paths ''u'' [entry_a, entry_dir, entry_b]
   \<and> sync_folder_listing ''u'' listing_failed walk_example folder_example base_example True
     = (\<lparr>status_code = 500\<rparr>, None, [], [])"
proof -
  have paths: "replace_backslashes base_example = ''C:/home''"
    "replace_backslashes folder_example = ''C:/home/d''"
    by (simp_all add: replace_backslashes_def base_example_def folder_example_def)
  have ok: "listing_example
      (remove_prefix (replace_backslashes folder_example) (replace_backslashes base_example @ ''/''))
      True = (\<lparr>status_code = 200\<rparr>, [entry_a, entry_dir, entry_b])"
    by (simp add: listing_example_def)
  have ok_status: "\<not> status_code \<lparr>status_code = 200\<rparr> \<ge> 300" by simp
  have failed: "listing_failed
      (remove_prefix (replace_backslashes folder_example) (replace_backslashes base_example @ ''/''))
      True = (\<lparr>status_code = 500\<rparr>, [])"
    by (simp add: listing_failed_def)
  have failed_status: "status_code \<lparr>status_code = 500\<rparr> \<ge> 300" by simp
  note good = sync_folder_listing_partition [where filer_get_folder_listing = listing_example
      and full_folder_path = folder_example and base_path = base_example and recursive = True
      and username = "''u''" and walk = walk_example, OF ok]
  have "\<exists>local_only remote_only both.
      (\<lparr>status_code = 200\<rparr>, Some (''C:/home'', [''d/c'']), [''d/b''], [(''d/a'', entry_a)])
       = (\<lparr>status_code = 200\<rparr>, Some (''C:/home'', local_only), remote_only, both) \<and>
      set local_only \<inter> set remote_only = {} \<and>
      set local_only \<inter> fst ` set both = {} \<and>
      set remote_only \<inter> fst ` set both = {} \<and>
      set local_only \<union> set remote_only \<union> fst ` set both
        = local_paths ''C:/home'' True (walk_example ''C:/home/d'')
          \<union> remote_paths ''u'' [entry_a, entry_dir, entry_b] \<and>
      fst ` set both
        = local_paths ''C:/home'' True (walk_example ''C:/home/d'')
          \<inter> remote_paths ''u'' [entry_a, entry_dir, entry_b]"
    using good by (simp only: if_not_P [OF ok_status] paths listing_example_result)
  then obtain local_only remote_only both where
    eq: "(\<lparr>status_code = 200\<rparr>, Some (''C:/home'', [''d/c'']), [''d/b''], [(''d/a'', entry_a)])
       = (\<lparr>status_code = 200\<rparr>, Some (''C:/home'', local_only), remote_only, both)"
    and parts: "set local_only \<inter> set remote_only = {}"
      "set local_only \<inter> fst ` set both = {}"
      "set remote_only \<inter> fst ` set both = {}"
      "set local_only \<union> set remote_only \<union> fst ` set both
        = local_paths ''C:/home'' True (walk_example ''C:/home/d'')
          \<union> remote_paths ''u'' [entry_a, entry_dir, entry_b]"
    by (elim exE conjE)
  from eq have names: "local_only = [''d/c'']" "remote_only = [''d/b'']" "both = [(''d/a'', entry_a)]"
    by (simp_all only: prod.inject option.inject)
  note fail = sync_folder_listing_partition [where filer_get_folder_listing = listing_failed
      and full_folder_path = folder_example and base_path = base_example and recursive = True
      and username = "''u''" and walk = walk_example, OF failed,
      unfolded if_P [OF failed_status]]
  from parts [unfolded names] fail listing_example_result show ?thesis
    by (intro conjI)
qed

subsection \<open>The comparison of a file present on both sides\<close>

lemma file_chunks_index:
  assumes "0 < sz"
  shows "(i < length (file_chunks sz bs)) = (i * nat sz < length bs)
       \<and> (i * nat sz < length bs \<longrightarrow> file_chunks sz bs ! i = take (nat sz) (drop (i * nat sz) bs))"
  using assms
proof (induction sz bs arbitrary: i rule: file_chunks.induct)
  case (1 sz bs)
  show ?case
  proof (cases "bs = []")
    case True
    then show ?thesis by (simp add: file_chunks.simps [of sz "[]"])
  next
    case False
    with "1.prems" have unfold:
      "file_chunks sz bs = take (nat sz) bs # file_chunks sz (drop (nat sz) bs)"
      by (simp add: file_chunks.simps [of sz bs])
    show ?thesis
    proof (cases i)
      case 0
      with False show ?thesis by (simp add: unfold)
    next
      case (Suc j)
      have IH: "(j < length (file_chunks sz (drop (nat sz) bs))) = (j * nat sz < length (drop (nat sz) bs))
        \<and> (j * nat sz < length (drop (nat sz) bs) \<longrightarrow>
             file_chunks sz (drop (nat sz) bs) ! j
               = take (nat sz) (drop (j * nat sz) (drop (nat sz) bs)))"
        using "1.IH" [of j] False "1.prems" by simp
      have len: "(j * nat sz < length (drop (nat sz) bs)) = (Suc j * nat sz < length bs)"
        by auto
      have dr: "drop (j * nat sz) (drop (nat sz) bs) = drop (Suc j * nat sz) bs"
        by (simp add: add.commute)
      show ?thesis
        using IH unfolding len dr by (simp add: unfold Suc)
    qed
  qed
qed

lemma chunks_md5s_equals_True:
  "(chunks_md5s_equals L cs g = (Inr True, g'))
   = (length cs \<le> length g \<and> (\<forall>i<length cs. b64decode L (e_tag (cs ! i)) = Some (g ! i))
      \<and> g' = drop (length cs) g)"
proof (induction cs arbitrary: g)
  case Nil
  then show ?case by auto
next
  case step: (Cons c cs)
  show ?case
  proof (cases g)
    case Nil
    then show ?thesis by (simp add: next_gen_def split: option.splits)
  next
    case (Cons x g1)
    show ?thesis
    proof (cases "b64decode L (e_tag c)")
      case None
      then show ?thesis by (auto simp: Cons)
    next
      case (Some d)
      show ?thesis
      proof (cases "d = x")
        case True
        have "(\<forall>i<Suc (length cs). b64decode L (e_tag ((c # cs) ! i)) = Some ((x # g1) ! i))
              = (\<forall>i<length cs. b64decode L (e_tag (cs ! i)) = Some (g1 ! i))"
          using Some True by (auto simp: nth_Cons split: nat.splits)
        then show ?thesis
          using Some True step.IH [of g1] by (simp add: Cons next_gen_def)
      next
        case False
        then show ?thesis using Some by (auto simp: Cons next_gen_def)
      qed
    qed
  qed
qed


lemma returns_already_synced_iff:
  "(snd (snd (sync_both_file L temp_dir A file filepath remote_path remote_meta0)) = Inr Already_synced)
   = (case resolve_remote_md5 A remote_path remote_meta0 of
        (evs1, remote_meta, none) \<Rightarrow>
          (case already_synced_condition L (content file) remote_meta none
                  (md5_file_generator L (content file) 1048576) of
             (r, g) \<Rightarrow> r = Inr True \<and> (g \<noteq> [] \<or> \<not> none)))"
  by (auto simp: sync_both_file_def Let_def update_remote_md5_def next_gen_def
      split: prod.splits sum.splits bool.splits list.splits)

lemma known_digest_condition:
  "already_synced_condition L file remote_meta False g
   = (if int (length file) = FileSize remote_meta
      then (case b64decode L (Md5 remote_meta) of
              None \<Rightarrow> (Inl Binascii_Error, g)
            | Some d \<Rightarrow> (Inr (md5 L file = d), g))
      else (Inr False, g))"
  by (simp add: already_synced_condition_def md5_whole_file_digest split: option.splits)

lemma unknown_digest_condition:
  "(already_synced_condition L file remote_meta True (md5_file_generator L file 1048576)
      = (Inr True, g') \<and> g' \<noteq> [])
   = (int (length file) = FileSize remote_meta \<and>
      (\<forall>i<length (chunks remote_meta).
          i * 1048576 < length file \<and>
          b64decode L (e_tag (chunks remote_meta ! i)) = Some (md5 L (local_range file i))) \<and>
      g' = drop (length (chunks remote_meta)) (md5_file_generator L file 1048576))"
proof (cases "int (length file) = FileSize remote_meta")
  case False
  then show ?thesis by (simp add: already_synced_condition_def)
next
  case True
  let ?cs = "chunks remote_meta"
  let ?chs = "file_chunks 1048576 file"
  let ?g = "md5_file_generator L file 1048576"
  have g: "?g = map (md5 L) ?chs @ [md5 L file]"
    by (rule md5_file_generator_eq) simp
  have idx: "(i < length ?chs) = (i * 1048576 < length file)"
    and nth: "i * 1048576 < length file \<Longrightarrow> ?chs ! i = local_range file i" for i
    using file_chunks_index [where sz = 1048576 and i = i and bs = "file"] by (simp_all add: local_range_def)
  have len: "length ?g = Suc (length ?chs)" by (simp add: g)
  have gi: "?g ! i = md5 L (local_range file i)" if "i < length ?chs" for i
    using that idx [of i] nth [of i] by (simp add: g nth_append)
  have "(length ?cs \<le> length ?g \<and> (\<forall>i<length ?cs. b64decode L (e_tag (?cs ! i)) = Some (?g ! i))
          \<and> drop (length ?cs) ?g \<noteq> [])
        = (\<forall>i<length ?cs. i * 1048576 < length file \<and>
             b64decode L (e_tag (?cs ! i)) = Some (md5 L (local_range file i)))"
    (is "?code = ?spec")
  proof
    assume c: ?code
    then have le: "length ?cs \<le> length ?chs" by (simp add: len)
    show ?spec
    proof (intro allI impI)
      fix i assume i: "i < length ?cs"
      with le have ic: "i < length ?chs" by simp
      with c i show "i * 1048576 < length file \<and>
             b64decode L (e_tag (?cs ! i)) = Some (md5 L (local_range file i))"
        using idx [of i] gi [of i] by simp
    qed
  next
    assume sp: ?spec
    have le: "length ?cs \<le> length ?chs"
    proof (rule ccontr)
      assume "\<not> length ?cs \<le> length ?chs"
      then have "length ?chs < length ?cs" by simp
      with sp have "length ?chs * 1048576 < length file" by blast
      with idx [of "length ?chs"] show False by simp
    qed
    show ?code
    proof (intro conjI allI impI)
      show "length ?cs \<le> length ?g" using le by (simp add: len)
    next
      fix i assume i: "i < length ?cs"
      with le have "i < length ?chs" by simp
      with sp i gi [of i] show "b64decode L (e_tag (?cs ! i)) = Some (?g ! i)" by simp
    next
      show "drop (length ?cs) ?g \<noteq> []" using le by (simp add: len)
    qed
  qed
  with True show ?thesis
    by (auto simp: already_synced_condition_def chunks_md5s_equals_True)
qed

text \<open>
  Claim C1: \<open>sync_both_file\<close> returns "Already synced!" (line 240) if and only if the size of the
  local file equals the remote \<open>FileSize\<close> and, when a whole-file digest is known (the
  entry's \<open>Md5\<close> is not the marker \<open>None\<close>, or the tag held by the store is not empty), the
  MD5 of the local file equals it; when none is known, every remote chunk digest equals the
  MD5 of the local byte range of the same number, in ranges of 1048576 bytes. A digest
  that does not decode, and a remote chunk with no local range, are runs that raise: they
  do not report the file as synced.
\<close>

theorem already_synced_iff:
  "(snd (snd (sync_both_file L temp_dir A file filepath remote_path remote_meta)) = Inr Already_synced)
   = spec_already_synced L (content file) remote_meta (md5_tag A)"
proof (cases "known_digest remote_meta (md5_tag A)")
  case (Some s)
  then obtain meta where r: "resolve_remote_md5 A remote_path remote_meta
        = (if Md5 remote_meta = ''None'' then [Filer_get_file_md5_tag remote_path] else [], meta, False)"
    and m: "Md5 meta = s" "FileSize meta = FileSize remote_meta"
    by (auto simp: known_digest_def resolve_remote_md5_def Let_def split: if_splits)
  show ?thesis
    unfolding returns_already_synced_iff r
    by (auto simp: known_digest_condition m spec_already_synced_def Some split: option.splits)
next
  case None
  then have r: "resolve_remote_md5 A remote_path remote_meta
        = ([Filer_get_file_md5_tag remote_path], remote_meta, True)"
    by (auto simp: known_digest_def resolve_remote_md5_def Let_def split: if_splits)
  have "(\<exists>g'. already_synced_condition L (content file) remote_meta True
                (md5_file_generator L (content file) 1048576) = (Inr True, g') \<and> g' \<noteq> [])
        = spec_already_synced L (content file) remote_meta (md5_tag A)"
    unfolding unknown_digest_condition
    by (auto simp: spec_already_synced_def None list_all_iff)
  then show ?thesis
    unfolding returns_already_synced_iff r
    by (auto split: prod.splits)
qed


text \<open>The theorem at the file \<open>abc\<close> and the entry with one chunk of the file's digest.\<close>

theorem already_synced_witness:
  "spec_already_synced plain_lib ''abc'' meta_one_chunk []
   \<and> snd (snd (sync_both_file plain_lib ''/tmp/t'' answers_example file_example ''/home/d/a'' ''d/a''
        meta_one_chunk)) = Inr Already_synced"
proof -
  have sp: "spec_already_synced plain_lib (content file_example) meta_one_chunk (md5_tag answers_example)"
    by (simp add: spec_already_synced_def known_digest_def meta_one_chunk_def file_example_def
        answers_example_def local_range_def plain_lib_def)
  then have "snd (snd (sync_both_file plain_lib ''/tmp/t'' answers_example file_example ''/home/d/a''
        ''d/a'' meta_one_chunk)) = Inr Already_synced"
    using already_synced_iff [of plain_lib "''/tmp/t''" answers_example file_example "''/home/d/a''"
        "''d/a''" meta_one_chunk] by simp
  with sp show ?thesis by (simp add: file_example_def answers_example_def)
qed

lemma first_generated_digest:
  "\<exists>g. md5_file_generator L file 1048576 = md5 L (take 1048576 file) # g"
proof (cases "file = []")
  case True
  then show ?thesis
    by (simp add: md5_file_generator_def file_chunks.simps [of _ "[]"] md5_digest_def md5_new_def)
next
  case False
  then show ?thesis
    by (simp add: md5_file_generator_def file_chunks.simps [of _ "file"] md5_digest_def
        md5_new_def md5_update_def)
qed

text \<open>
  Claim C10: when the entry's \<open>Md5\<close> is the marker, the tag held by the store is empty and
  the chunk list is empty, \<open>sync_both_file\<close> reports the file as already synced as soon as
  the sizes are equal, whatever the contents are: the loop over the chunks runs no
  iteration. The calls made are the query of the tag and the write of a new tag.
\<close>

theorem no_chunks_same_size_is_synced:
  assumes "Md5 remote_meta = ''None''" and "md5_tag A = []" and "chunks remote_meta = []"
    and "int (length (content file)) = FileSize remote_meta"
  shows "sync_both_file L temp_dir A file filepath remote_path remote_meta
         = ([Filer_get_file_md5_tag remote_path, Filer_remove_file_tags remote_path,
             Filer_set_file_md5_tag remote_path (b64encode L (md5 L (take 1048576 (content file))))],
            remote_meta, Inr Already_synced)"
proof -
  obtain g where g: "md5_file_generator L (content file) 1048576
      = md5 L (take 1048576 (content file)) # g"
    using first_generated_digest by blast
  show ?thesis
    using assms
    by (simp add: sync_both_file_def resolve_remote_md5_def already_synced_condition_def g
        update_remote_md5_def next_gen_def Let_def)
qed

text \<open>The theorem at the file \<open>abc\<close> and an entry of size 3 with no chunk.\<close>

theorem no_chunks_same_size_witness:
  "sync_both_file plain_lib ''/tmp/t'' answers_example file_example ''/home/d/a'' ''d/a'' meta_no_chunk
   = ([Filer_get_file_md5_tag ''d/a'', Filer_remove_file_tags ''d/a'',
       Filer_set_file_md5_tag ''d/a'' ''abc''], meta_no_chunk, Inr Already_synced)"
  using no_chunks_same_size_is_synced [of meta_no_chunk answers_example file_example plain_lib
      "''/tmp/t''" "''/home/d/a''" "''d/a''"]
  by (simp add: meta_no_chunk_def answers_example_def file_example_def plain_lib_def)


subsection \<open>The digest written back as the content-hash tag\<close>

lemma big_file_chunks:
  "file_chunks 1048576 (replicate 1048577 (CHR ''a'')) = [replicate 1048576 (CHR ''a''), ''a'']"
  by (simp add: file_chunks.simps)

lemma big_file_generator:
  "md5_file_generator L (replicate 1048577 (CHR ''a'')) 1048576
   = [md5 L (replicate 1048576 (CHR ''a'')), md5 L ''a'', md5 L (replicate 1048577 (CHR ''a''))]"
  by (simp add: md5_file_generator_eq big_file_chunks)

lemma remote_mtime_example:
  "remote_mtime_of \<lparr>e_tag = t, mtime = 1700000000123456789\<rparr> = 1700000000"
  by (simp add: remote_mtime_of_def py_str.simps py_float_def digit_char_def digit_value_def)

lemma download_example:
  "sync_transfer ''/tmp/t'' answers_example big_file ''/home/d/a'' ''d/a'' meta_other_size
   = ([Rdiff_signature ''/home/d/a'' ''/tmp/t/d/a.sig'',
       Ws_download_new_file_version ''/tmp/t/d/a.sig'' ''d/a'',
       Rdiff_patch ''/home/d/a'' ''/tmp/t/d/a.delta'' ''/home/d/a_2'',
       Os_remove ''/home/d/a'', Os_renames ''/home/d/a_2'' ''/home/d/a'',
       Print ''Success download!''], Inr 1)"
  by (simp add: sync_transfer_def meta_other_size_def big_file_def remote_mtime_example
      py_round_def download_branch_def sync_both_file_download_def answers_example_def
      silent_remove_def Let_def)

lemma download_example_2:
  "sync_transfer ''/tmp/t'' answers_example big_file ''/home/d/a'' ''d/a'' meta_other_chunk
   = ([Rdiff_signature ''/home/d/a'' ''/tmp/t/d/a.sig'',
       Ws_download_new_file_version ''/tmp/t/d/a.sig'' ''d/a'',
       Rdiff_patch ''/home/d/a'' ''/tmp/t/d/a.delta'' ''/home/d/a_2'',
       Os_remove ''/home/d/a'', Os_renames ''/home/d/a_2'' ''/home/d/a'',
       Print ''Success download!''], Inr 1)"
  by (simp add: sync_transfer_def meta_other_chunk_def big_file_def remote_mtime_example
      py_round_def download_branch_def sync_both_file_download_def answers_example_def
      silent_remove_def Let_def)

lemma short_is_not_long: "length xs < n \<Longrightarrow> xs \<noteq> replicate n c"
  by auto

text \<open>
  Claim C2 at a file of 1048577 bytes (two chunks) whose remote entry has no digest and no
  tag. When the remote size differs, the comparison ends at the sizes, the generator is
  untouched, and the tag written is the digest of the first 1048576 bytes, whatever the
  hash function is. When the sizes agree and the first remote chunk has another digest,
  the chunk comparison returns at once and the tag written is the digest of the second
  chunk, the last byte; with a hash without collisions that is not the digest of the file.
\<close>

theorem tag_written_is_a_chunk_digest:
  "sync_both_file L ''/tmp/t'' answers_example big_file ''/home/d/a'' ''d/a'' meta_other_size
   = ([Filer_get_file_md5_tag ''d/a'',
       Filer_set_file_md5_tag ''d/a'' (b64encode L (md5 L (replicate 1048576 (CHR ''a'')))),
       Rdiff_signature ''/home/d/a'' ''/tmp/t/d/a.sig'',
       Ws_download_new_file_version ''/tmp/t/d/a.sig'' ''d/a'',
       Rdiff_patch ''/home/d/a'' ''/tmp/t/d/a.delta'' ''/home/d/a_2'',
       Os_remove ''/home/d/a'', Os_renames ''/home/d/a_2'' ''/home/d/a'',
       Print ''Success download!''],
      meta_other_size, Inr (Transfer 1))
   \<and> sync_both_file plain_lib ''/tmp/t'' answers_example big_file ''/home/d/a'' ''d/a''
       meta_other_chunk
   = ([Filer_get_file_md5_tag ''d/a'',
       Filer_set_file_md5_tag ''d/a'' (b64encode plain_lib (md5 plain_lib ''a'')),
       Rdiff_signature ''/home/d/a'' ''/tmp/t/d/a.sig'',
       Ws_download_new_file_version ''/tmp/t/d/a.sig'' ''d/a'',
       Rdiff_patch ''/home/d/a'' ''/tmp/t/d/a.delta'' ''/home/d/a_2'',
       Os_remove ''/home/d/a'', Os_renames ''/home/d/a_2'' ''/home/d/a'',
       Print ''Success download!''],
      meta_other_chunk, Inr (Transfer 1))
   \<and> b64encode plain_lib (md5 plain_lib ''a'')
       \<noteq> b64encode plain_lib (md5 plain_lib (content big_file))"
proof -
  have g: "md5_file_generator L' (content big_file) 1048576
      = [md5 L' (replicate 1048576 (CHR ''a'')), md5 L' ''a'', md5 L' (replicate 1048577 (CHR ''a''))]"
    for L'
    by (simp add: big_file_def big_file_generator)
  have r1: "resolve_remote_md5 answers_example ''d/a'' meta_other_size
           = ([Filer_get_file_md5_tag ''d/a''], meta_other_size, True)"
    by (simp add: resolve_remote_md5_def meta_other_size_def answers_example_def)
  have c1: "already_synced_condition L (content big_file) meta_other_size True g = (Inr False, g)" for g
    by (simp add: already_synced_condition_def big_file_def meta_other_size_def)
  have first: "sync_both_file L ''/tmp/t'' answers_example big_file ''/home/d/a'' ''d/a''
        meta_other_size
      = ([Filer_get_file_md5_tag ''d/a'',
          Filer_set_file_md5_tag ''d/a'' (b64encode L (md5 L (replicate 1048576 (CHR ''a'')))),
          Rdiff_signature ''/home/d/a'' ''/tmp/t/d/a.sig'',
          Ws_download_new_file_version ''/tmp/t/d/a.sig'' ''d/a'',
          Rdiff_patch ''/home/d/a'' ''/tmp/t/d/a.delta'' ''/home/d/a_2'',
          Os_remove ''/home/d/a'', Os_renames ''/home/d/a_2'' ''/home/d/a'',
          Print ''Success download!''],
         meta_other_size, Inr (Transfer 1))"
    by (simp add: sync_both_file_def r1 c1 g update_remote_md5_def next_gen_def download_example)
  have r2: "resolve_remote_md5 answers_example ''d/a'' meta_other_chunk
           = ([Filer_get_file_md5_tag ''d/a''], meta_other_chunk, True)"
    by (simp add: resolve_remote_md5_def meta_other_chunk_def answers_example_def)
  have ne: "''x'' \<noteq> replicate 1048576 (CHR ''a'')"
    by (rule short_is_not_long) simp
  have c2: "already_synced_condition plain_lib (content big_file) meta_other_chunk True
        [md5 plain_lib (replicate 1048576 (CHR ''a'')), md5 plain_lib ''a'',
         md5 plain_lib (replicate 1048577 (CHR ''a''))]
      = (Inr False, [md5 plain_lib ''a'', md5 plain_lib (replicate 1048577 (CHR ''a''))])"
    using ne
    by (simp add: already_synced_condition_def big_file_def meta_other_chunk_def next_gen_def
        plain_lib_def)
  have second: "sync_both_file plain_lib ''/tmp/t'' answers_example big_file ''/home/d/a'' ''d/a''
        meta_other_chunk
      = ([Filer_get_file_md5_tag ''d/a'',
          Filer_set_file_md5_tag ''d/a'' (b64encode plain_lib (md5 plain_lib ''a'')),
          Rdiff_signature ''/home/d/a'' ''/tmp/t/d/a.sig'',
          Ws_download_new_file_version ''/tmp/t/d/a.sig'' ''d/a'',
          Rdiff_patch ''/home/d/a'' ''/tmp/t/d/a.delta'' ''/home/d/a_2'',
          Os_remove ''/home/d/a'', Os_renames ''/home/d/a_2'' ''/home/d/a'',
          Print ''Success download!''],
         meta_other_chunk, Inr (Transfer 1))"
    by (simp add: sync_both_file_def r2 g c2 update_remote_md5_def next_gen_def download_example_2)
  have "''a'' \<noteq> replicate 1048577 (CHR ''a'')"
    by (rule short_is_not_long) simp
  then have third: "b64encode plain_lib (md5 plain_lib ''a'')
       \<noteq> b64encode plain_lib (md5 plain_lib (content big_file))"
    by (simp add: plain_lib_def big_file_def)
  from first second third show ?thesis by (intro conjI)
qed

subsection \<open>The direction of a transfer\<close>

lemma digit_value_digit_char: "d < 10 \<Longrightarrow> digit_value (digit_char d) = d"
proof -
  assume "d < 10"
  then have "d = 0 \<or> d = 1 \<or> d = 2 \<or> d = 3 \<or> d = 4 \<or> d = 5 \<or> d = 6 \<or> d = 7 \<or> d = 8 \<or> d = 9"
    by arith
  then show ?thesis
    by (elim disjE) (simp_all add: digit_value_def digit_char_def)
qed

lemma digits_value_py_str: "foldl (\<lambda>a c. 10 * a + digit_value c) 0 (py_str n) = n"
proof (induction n rule: py_str.induct)
  case (1 n)
  show ?case
  proof (cases "n < 10")
    case True
    then show ?thesis by (simp add: py_str.simps [of n] digit_value_digit_char)
  next
    case False
    with 1 show ?thesis by (simp add: py_str.simps [of n] digit_value_digit_char)
  qed
qed

lemma py_str_not_empty: "py_str n \<noteq> []"
  by (simp add: py_str.simps [of n])

lemma length_py_str_le: "0 < k \<Longrightarrow> n < 10 ^ k \<Longrightarrow> length (py_str n) \<le> k"
proof (induction n arbitrary: k rule: py_str.induct)
  case (1 n)
  show ?case
  proof (cases "n < 10")
    case True
    with 1(2) show ?thesis by (simp add: py_str.simps [of n])
  next
    case False
    obtain j where k: "k = Suc j" using 1(2) by (cases k) simp_all
    have j: "0 < j" using False 1(3) k by (cases j) simp_all
    have "n div 10 < 10 ^ j" using 1(3) k by (simp add: less_mult_imp_div_less)
    with 1(1) [OF False j] have "length (py_str (n div 10)) \<le> j" .
    with False k show ?thesis by (simp add: py_str.simps [of n])
  qed
qed

lemma length_py_str_gt: "10 ^ k \<le> n \<Longrightarrow> k < length (py_str n)"
proof (induction n arbitrary: k rule: py_str.induct)
  case (1 n)
  show ?case
  proof (cases k)
    case 0
    then show ?thesis by (simp add: py_str_not_empty)
  next
    case (Suc j)
    have ge: "\<not> n < 10"
    proof
      assume lt: "n < 10"
      have one: "(1::nat) \<le> 10 ^ j" by simp
      have "10 * 10 ^ j \<le> n" using 1(2) Suc by simp
      with lt one show False by arith
    qed
    have "10 ^ j \<le> n div 10" using 1(2) Suc by (simp add: less_eq_div_iff_mult_less_eq)
    with 1(1) [OF ge] have "j < length (py_str (n div 10))" .
    with ge Suc show ?thesis by (simp add: py_str.simps [of n])
  qed
qed

lemma take_py_str: "0 < k \<Longrightarrow> take k (py_str n) = py_str (leading_digits k n)"
proof (induction k n rule: leading_digits.induct)
  case (1 k n)
  show ?case
  proof (cases "n < 10 ^ k")
    case True
    with 1(2) show ?thesis
      by (simp add: leading_digits.simps [of k n] length_py_str_le)
  next
    case False
    have "(10::nat) \<le> 10 ^ k" using 1(2) by (cases k) simp_all
    with False have ge: "\<not> n < 10" by simp
    obtain j where k: "k = Suc j" using 1(2) by (cases k) simp_all
    have "10 ^ j \<le> n div 10" using False k by (simp add: less_eq_div_iff_mult_less_eq)
    then have "j < length (py_str (n div 10))" by (rule length_py_str_gt)
    then have "k \<le> length (py_str (n div 10))" using k by simp
    then have "take k (py_str n) = take k (py_str (n div 10))"
      using ge by (simp add: py_str.simps [of n])
    also have "\<dots> = py_str (leading_digits k (n div 10))" using 1(1) [OF False 1(2)] .
    finally show ?thesis using False by (simp add: leading_digits.simps [of k n])
  qed
qed

lemma remote_mtime_of_leading_digits: "remote_mtime_of c = int (leading_digits 10 (mtime c))"
  by (simp add: remote_mtime_of_def py_float_def take_py_str digits_value_py_str)

lemma leading_digits_example: "leading_digits 10 1700000000123456789 = 1700000000"
  by (simp add: leading_digits.simps)

text \<open>
  Claim C3, with the local time as the engine takes it: the modification time of the
  file rounded to a whole number of seconds (\<open>round(os.path.getmtime(filepath), 0)\<close>, line
  244). The transfer of lines 244 to 255 is an upload exactly when that rounded time is
  greater than the remote reference time plus 50, and a download otherwise, also when the
  two are equal; the remote reference time is the number made of the first 10 decimal
  digits of the \<open>mtime\<close> of the first chunk. An entry with no chunk raises.
\<close>

theorem direction_decision:
  "sync_transfer temp_dir A file filepath remote_path remote_meta =
     (case chunks remote_meta of
        [] \<Rightarrow> ([], Inl IndexError)
      | c0 # cs \<Rightarrow>
          (case chooseDirection (py_round (getmtime file)) (int (leading_digits 10 (mtime c0))) of
             Upload \<Rightarrow> upload_branch temp_dir A filepath remote_path
           | Download \<Rightarrow> download_branch temp_dir A filepath remote_path))
   \<and> ((chooseDirection t_local t_remote = Upload) = (t_local > t_remote + 50))
   \<and> ((chooseDirection t_local t_remote = Download) = (t_local \<le> t_remote + 50))
   \<and> chooseDirection (t_remote + 50) t_remote = Download"
  by (simp add: sync_transfer_def remote_mtime_of_leading_digits chooseDirection_def
      split: list.split)

text \<open>
  The theorem at a file modified 51 seconds after the remote reference time, which is
  uploaded.
\<close>

theorem direction_decision_witness:
  "sync_transfer ''/tmp/t'' answers_example file_later ''/home/d/a'' ''d/a'' meta_one_chunk
   = ([Rdiff_signature ''/home/d/a'' ''/tmp/t/d/a.sig'',
       Ws_make_version_delta ''/tmp/t/d/a.sig'' ''d/a'',
       Filer_download_file ''d/a.sig.v'' ''/tmp/t'',
       Rdiff_delta ''/tmp/t/d/a.sig.v'' ''/home/d/a'' ''/tmp/t/d/a.delta'',
       Ws_upload_new_file_version ''/tmp/t/d/a.delta'' ''d/a'',
       Print ''Success upload!''], Inr 1)"
  using direction_decision [of "''/tmp/t''" answers_example file_later "''/home/d/a''" "''d/a''"
      meta_one_chunk 0 0]
  by (simp add: meta_one_chunk_def file_later_def leading_digits_example py_round_def
      chooseDirection_def upload_branch_def sync_make_version_delta_def
      sync_both_file_upload_def answers_example_def Let_def)

text \<open>
  The claim as it is worded, for every local modification time, fails at a time with a
  fraction: a file modified 50.25 seconds after the remote reference time exceeds it by
  more than 50 seconds, and is downloaded, because its time is rounded to 50 seconds
  after.
\<close>

theorem fractional_mtime_counterexample:
  "getmtime file_quarter
     > of_int (int (leading_digits 10 (mtime (hd (chunks meta_one_chunk))))) + 50
   \<and> sync_transfer ''/tmp/t'' answers_example file_quarter ''/home/d/a'' ''d/a'' meta_one_chunk
     = ([Rdiff_signature ''/home/d/a'' ''/tmp/t/d/a.sig'',
         Ws_download_new_file_version ''/tmp/t/d/a.sig'' ''d/a'',
         Rdiff_patch ''/home/d/a'' ''/tmp/t/d/a.delta'' ''/home/d/a_2'',
         Os_remove ''/home/d/a'', Os_renames ''/home/d/a_2'' ''/home/d/a'',
         Print ''Success download!''], Inr 1)"
proof -
  have fl: "\<lfloor>(6800000201::rat) / 4\<rfloor> = 1700000050"
    by (simp add: floor_eq_iff)
  have r: "py_round (getmtime file_quarter) = 1700000050"
    by (simp add: py_round_def file_quarter_def fl Let_def)
  have t: "sync_transfer ''/tmp/t'' answers_example file_quarter ''/home/d/a'' ''d/a'' meta_one_chunk
     = download_branch ''/tmp/t'' answers_example ''/home/d/a'' ''d/a''"
    by (simp add: sync_transfer_def r remote_mtime_of_leading_digits meta_one_chunk_def
        leading_digits_example)
  have d: "download_branch ''/tmp/t'' answers_example ''/home/d/a'' ''d/a''
     = ([Rdiff_signature ''/home/d/a'' ''/tmp/t/d/a.sig'',
         Ws_download_new_file_version ''/tmp/t/d/a.sig'' ''d/a'',
         Rdiff_patch ''/home/d/a'' ''/tmp/t/d/a.delta'' ''/home/d/a_2'',
         Os_remove ''/home/d/a'', Os_renames ''/home/d/a_2'' ''/home/d/a'',
         Print ''Success download!''], Inr 1)"
    by (simp add: download_branch_def sync_both_file_download_def answers_example_def
        silent_remove_def Let_def)
  have g: "getmtime file_quarter
     > of_int (int (leading_digits 10 (mtime (hd (chunks meta_one_chunk))))) + 50"
    by (simp add: file_quarter_def meta_one_chunk_def leading_digits_example)
  from g t d show ?thesis by simp
qed

subsection \<open>The pass over the files on both sides\<close>

lemma sync_both_files_append:
  "sync_both_files E base_path env k (xs @ ys) repeat store =
     (case sync_both_files E base_path env k xs repeat store of
        (None, repeat1, store1, steps1) \<Rightarrow>
          (case sync_both_files E base_path env (k + length xs) ys repeat1 store1 of
             (err, repeat2, store2, steps2) \<Rightarrow> (err, repeat2, store2, steps1 @ steps2))
      | (Some e, repeat1, store1, steps1) \<Rightarrow> (Some e, repeat1, store1, steps1))"
proof (induction xs arbitrary: k repeat store)
  case Nil
  obtain e2 r2 s2 t2 where "sync_both_files E base_path env k ys repeat store = (e2, r2, s2, t2)"
    by (rule prod_cases4)
  then show ?case by simp
next
  case (Cons x xs)
  let ?a = "env k"
  have rest: "sync_both_files E base_path env (Suc k) (xs @ ys) r st =
     (case sync_both_files E base_path env (Suc k) xs r st of
        (None, repeat1, store1, steps1) \<Rightarrow>
          (case sync_both_files E base_path env (Suc k + length xs) ys repeat1 store1 of
             (err, repeat2, store2, steps2) \<Rightarrow> (err, repeat2, store2, steps1 @ steps2))
      | (Some e, repeat1, store1, steps1) \<Rightarrow> (Some e, repeat1, store1, steps1))" for r st
    by (rule Cons.IH)
  have pass: ?case
    if p: "sync_both_files E base_path env (Suc k) xs r st = (e1, r1, s1, t1)"
      and unfold_left: "sync_both_files E base_path env k (x # xs @ ys) repeat store
        = (case sync_both_files E base_path env (Suc k) (xs @ ys) r st of
             (err, repeat', store', steps) \<Rightarrow> (err, repeat', store', step # steps))"
      and unfold_right: "sync_both_files E base_path env k (x # xs) repeat store
        = (case sync_both_files E base_path env (Suc k) xs r st of
             (err, repeat', store', steps) \<Rightarrow> (err, repeat', store', step # steps))"
    for r st e1 r1 s1 t1 step
  proof -
    obtain e2 r2 s2 t2 where
      q: "sync_both_files E base_path env (Suc (k + length xs)) ys r1 s1 = (e2, r2, s2, t2)"
      by (rule prod_cases4)
    show ?thesis
      by (cases e1) (simp_all add: unfold_left unfold_right rest p q del: sync_both_files.simps)
  qed
  show ?case
  proof (cases "lock_before ?a = []")
    case False
    obtain e1 r1 s1 t1 where
      p: "sync_both_files E base_path env (Suc k) xs (repeat @ [x]) store = (e1, r1, s1, t1)"
      by (rule prod_cases4)
    show ?thesis
      by (rule pass [where step = "[Filer_get_file_lock (fst x)]", OF p])
        (use False in \<open>simp_all add: Let_def\<close>)
  next
    case free: True
    show ?thesis
    proof (cases "lock_after ?a = api_client_id E")
      case False
      obtain e1 r1 s1 t1 where
        p: "sync_both_files E base_path env (Suc k) xs (repeat @ [x]) store = (e1, r1, s1, t1)"
        by (rule prod_cases4)
      show ?thesis
        by (rule pass [where step = "lock_events (fst x)", OF p])
          (use free False in \<open>simp_all add: Let_def\<close>)
    next
      case True
      obtain evs meta' res where s: "sync_both_file (engine_lib E) (engine_temp_dir E)
          (answers_now ?a) (file_now ?a) (base_path @ ''/'' @ fst x) (fst x) (current_meta store x)
          = (evs, meta', res)"
        by (rule prod_cases3)
      show ?thesis
      proof (cases res)
        case (Inl e)
        with free True s show ?thesis by (simp add: Let_def)
      next
        case (Inr out)
        obtain e1 r1 s1 t1 where
          p: "sync_both_files E base_path env (Suc k) xs
                (if return_value out = 0 then repeat @ [x] else repeat)
                (store(fst x \<mapsto> Md5 meta')) = (e1, r1, s1, t1)"
          by (rule prod_cases4)
        show ?thesis
          by (rule pass [where step = "lock_events (fst x)
                @ [Call_sync_both_file (base_path @ ''/'' @ fst x) (fst x)] @ evs", OF p])
            (use free True s Inr in \<open>simp_all add: Let_def del: if_split\<close>)
      qed
    qed
  qed
qed

lemma sync_both_files_extends:
  "sync_both_files E base_path env k xs repeat store = (err, repeat', store', steps)
   \<Longrightarrow> \<exists>more. repeat' = repeat @ more"
proof (induction xs arbitrary: k repeat store err repeat' store' steps)
  case Nil
  then show ?case by simp
next
  case (Cons x xs)
  from Cons.prems show ?case
    by (auto simp: Let_def split: prod.splits option.splits sum.splits if_splits
        dest!: Cons.IH)
qed

text \<open>
  Claim C6: in a pass over \<open>both\<close> that reaches the file \<open>b\<close> (the pass over the files
  before it raised nothing), the calls of the iteration on \<open>b\<close> contain the call of
  \<open>sync_both_file\<close> only when the first query of the lock shows no owner and the query
  after the acquisition shows this client's id, and then they are the three calls on the
  lock followed by that call. Otherwise the calls of the iteration are the first query
  alone (a lock that is held) or the three calls on the lock (a lost race), and \<open>b\<close> is
  appended to \<open>repeat\<close> as the files before it left it.
\<close>

theorem lock_gates_sync_both_file:
  assumes "sync_both_files E base_path env k pre repeat store = (None, repeat1, store1, steps1)"
  shows "\<exists>err repeat2 store2 step steps2.
           sync_both_files E base_path env k (pre @ b # post) repeat store
             = (err, repeat1 @ repeat2, store2, steps1 @ step # steps2)
           \<and> (if lock_before (env (k + length pre)) = []
                  \<and> lock_after (env (k + length pre)) = api_client_id E
               then \<exists>evs. step = lock_events (fst b)
                              @ Call_sync_both_file (base_path @ ''/'' @ fst b) (fst b) # evs
               else step = (if lock_before (env (k + length pre)) = []
                            then lock_events (fst b) else [Filer_get_file_lock (fst b)])
                    \<and> (\<forall>filepath remote_path. Call_sync_both_file filepath remote_path \<notin> set step)
                    \<and> (\<exists>repeat3. repeat2 = b # repeat3))"
proof -
  let ?a = "env (k + length pre)"
  let ?rest = "\<lambda>r s. sync_both_files E base_path env (Suc (k + length pre)) post r s"
  have app: "sync_both_files E base_path env k (pre @ b # post) repeat store
      = (case sync_both_files E base_path env (k + length pre) (b # post) repeat1 store1 of
           (err, repeat2, store2, steps2) \<Rightarrow> (err, repeat2, store2, steps1 @ steps2))"
    by (simp only: sync_both_files_append assms prod.case option.case)
  show ?thesis
  proof (cases "lock_before ?a = [] \<and> lock_after ?a = api_client_id E")
    case True
    obtain evs meta' res where s: "sync_both_file (engine_lib E) (engine_temp_dir E) (answers_now ?a)
        (file_now ?a) (base_path @ ''/'' @ fst b) (fst b) (current_meta store1 b) = (evs, meta', res)"
      by (cases "sync_both_file (engine_lib E) (engine_temp_dir E) (answers_now ?a)
        (file_now ?a) (base_path @ ''/'' @ fst b) (fst b) (current_meta store1 b)") auto
    show ?thesis
    proof (cases res)
      case (Inl e)
      with True s show ?thesis
        by (simp add: app Let_def)
    next
      case (Inr out)
      obtain err r' s' steps where
        r: "?rest (if return_value out = 0 then repeat1 @ [b] else repeat1)
              (store1(fst b \<mapsto> Md5 meta')) = (err, r', s', steps)"
        by (cases "?rest (if return_value out = 0 then repeat1 @ [b] else repeat1)
              (store1(fst b \<mapsto> Md5 meta'))") auto
      from sync_both_files_extends [OF r] obtain more where
        "r' = (if return_value out = 0 then repeat1 @ [b] else repeat1) @ more" by blast
      then have "\<exists>repeat2. r' = repeat1 @ repeat2" by (cases "return_value out = 0") simp_all
      with True s Inr r show ?thesis
        by (auto simp: app Let_def)
    qed
  next
    case False
    obtain err r' s' steps where r: "?rest (repeat1 @ [b]) store1 = (err, r', s', steps)"
      by (cases "?rest (repeat1 @ [b]) store1") auto
    from sync_both_files_extends [OF r] obtain more where m: "r' = repeat1 @ b # more" by auto
    show ?thesis
    proof (cases "lock_before ?a = []")
      case True
      with False r m show ?thesis
        by (simp add: app Let_def lock_events_def)
    next
      case nonempty: False
      with r m show ?thesis
        by (simp add: app Let_def)
    qed
  qed
qed

text \<open>
  The theorem at a pass over the file \<open>d/a\<close> twice: the first iteration holds the lock and
  finds the file synced, the second one loses the race and defers the file.
\<close>

lemma first_iteration_example:
  "sync_both_files engine_example ''/home'' env_race 0 [item_a] [] Map.empty
   = (None, [], [''d/a'' \<mapsto> ''None''],
      [[Filer_get_file_lock ''d/a'', Filer_set_file_lock ''d/a'', Filer_get_file_lock ''d/a'',
        Call_sync_both_file ''/home/d/a'' ''d/a'', Filer_get_file_md5_tag ''d/a'',
        Filer_remove_file_tags ''d/a'', Filer_set_file_md5_tag ''d/a'' ''x'']])"
proof -
  have g: "md5_file_generator plain_lib ''x'' 1048576 = [md5 plain_lib ''x'', md5 plain_lib ''x'']"
    by (simp add: md5_file_generator_def file_chunks.simps md5_digest_def md5_new_def
        md5_update_def)
  have e: "b64encode plain_lib (md5 plain_lib ''x'') = ''x''"
    by (simp add: plain_lib_def)
  have s: "sync_both_file plain_lib ''/tmp/t'' answers_example file_x ''/home/d/a'' ''d/a'' entry_a
      = ([Filer_get_file_md5_tag ''d/a'', Filer_remove_file_tags ''d/a'',
          Filer_set_file_md5_tag ''d/a'' ''x''], entry_a, Inr Already_synced)"
    by (simp add: sync_both_file_def file_x_def g e resolve_remote_md5_def entry_a_def
        answers_example_def already_synced_condition_def update_remote_md5_def next_gen_def
        Let_def)
  have m: "Md5 entry_a = ''None''" by (simp add: entry_a_def)
  show ?thesis
    by (simp add: env_race_def attempt_free_def engine_example_def item_a_def current_meta_def
        s m lock_events_def Let_def)
qed

theorem lock_gates_witness:
  "sync_both_files engine_example ''/home'' env_race 0 [item_a] [] Map.empty
     = (None, [], [''d/a'' \<mapsto> ''None''],
        [[Filer_get_file_lock ''d/a'', Filer_set_file_lock ''d/a'', Filer_get_file_lock ''d/a'',
          Call_sync_both_file ''/home/d/a'' ''d/a'', Filer_get_file_md5_tag ''d/a'',
          Filer_remove_file_tags ''d/a'', Filer_set_file_md5_tag ''d/a'' ''x'']])
   \<and> (\<exists>err repeat2 store2 steps2.
         sync_both_files engine_example ''/home'' env_race 0 [item_a, item_a] [] Map.empty
           = (err, item_a # repeat2, store2,
              [[Filer_get_file_lock ''d/a'', Filer_set_file_lock ''d/a'',
                Filer_get_file_lock ''d/a'',
                Call_sync_both_file ''/home/d/a'' ''d/a'', Filer_get_file_md5_tag ''d/a'',
                Filer_remove_file_tags ''d/a'', Filer_set_file_md5_tag ''d/a'' ''x''],
               [Filer_get_file_lock ''d/a'', Filer_set_file_lock ''d/a'',
                Filer_get_file_lock ''d/a'']] @ steps2))"
proof -
  let ?first = "[Filer_get_file_lock ''d/a'', Filer_set_file_lock ''d/a'', Filer_get_file_lock ''d/a'',
      Call_sync_both_file ''/home/d/a'' ''d/a'', Filer_get_file_md5_tag ''d/a'',
      Filer_remove_file_tags ''d/a'', Filer_set_file_md5_tag ''d/a'' ''x'']"
  have free: "lock_before (env_race (0 + length [item_a])) = []"
    by (simp add: env_race_def attempt_lost_def)
  have lost: "\<not> (lock_before (env_race (0 + length [item_a])) = []
      \<and> lock_after (env_race (0 + length [item_a])) = api_client_id engine_example)"
    by (simp add: env_race_def attempt_lost_def engine_example_def)
  have le: "lock_events (fst item_a)
      = [Filer_get_file_lock ''d/a'', Filer_set_file_lock ''d/a'', Filer_get_file_lock ''d/a'']"
    by (simp add: lock_events_def item_a_def)
  from lock_gates_sync_both_file [OF first_iteration_example, of item_a "[]",
      unfolded if_not_P [OF lost] if_P [OF free] le]
  obtain err repeat3 store2 steps2 where
    "sync_both_files engine_example ''/home'' env_race 0 ([item_a] @ [item_a]) [] Map.empty
        = (err, [] @ item_a # repeat3, store2,
           [?first] @ [Filer_get_file_lock ''d/a'', Filer_set_file_lock ''d/a'',
                       Filer_get_file_lock ''d/a''] # steps2)"
    by blast
  then have "sync_both_files engine_example ''/home'' env_race 0 [item_a, item_a] [] Map.empty
        = (err, item_a # repeat3, store2,
           [?first, [Filer_get_file_lock ''d/a'', Filer_set_file_lock ''d/a'',
                     Filer_get_file_lock ''d/a'']] @ steps2)"
    by (simp only: append.simps)
  with first_iteration_example show ?thesis by blast
qed

subsection \<open>A signature that fails on the download path\<close>

lemma generator_abc:
  "md5_file_generator L ''abc'' 1048576 = [md5 L ''abc'', md5 L ''abc'']"
  by (simp add: md5_file_generator_def file_chunks.simps md5_digest_def md5_new_def
      md5_update_def)

lemma bad_signature_download:
  "sync_both_file plain_lib ''/tmp/t'' answers_bad_signature file_example ''/home/d/a'' ''d/a''
     meta_other_size
   = ([Filer_get_file_md5_tag ''d/a'', Filer_set_file_md5_tag ''d/a'' ''abc'',
       Rdiff_signature ''/home/d/a'' ''/tmp/t/d/a.sig'',
       Ws_download_new_file_version ''/tmp/t/d/a.sig'' ''d/a'',
       Rdiff_patch ''/home/d/a'' ''/tmp/t/d/a.delta'' ''/home/d/a_2'',
       Os_remove ''/home/d/a'', Os_renames ''/home/d/a_2'' ''/home/d/a'',
       Print ''Success download!''], meta_other_size, Inr (Transfer 1))"
proof -
  have r: "resolve_remote_md5 answers_bad_signature ''d/a'' meta_other_size
           = ([Filer_get_file_md5_tag ''d/a''], meta_other_size, True)"
    by (simp add: resolve_remote_md5_def meta_other_size_def answers_bad_signature_def
        answers_example_def)
  have c: "already_synced_condition plain_lib (content file_example) meta_other_size True g
           = (Inr False, g)" for g
    by (simp add: already_synced_condition_def file_example_def meta_other_size_def)
  have e: "b64encode plain_lib (md5 plain_lib ''abc'') = ''abc''"
    by (simp add: plain_lib_def)
  have g: "md5_file_generator plain_lib (content file_example) 1048576
           = [md5 plain_lib ''abc'', md5 plain_lib ''abc'']"
    by (simp add: file_example_def generator_abc)
  have rm: "remote_mtime_of \<lparr>e_tag = ''x'', mtime = 1700000000123456789\<rparr> = 1700000000"
    by (simp add: remote_mtime_of_leading_digits leading_digits_example)
  have t: "sync_transfer ''/tmp/t'' answers_bad_signature file_example ''/home/d/a'' ''d/a''
        meta_other_size
      = ([Rdiff_signature ''/home/d/a'' ''/tmp/t/d/a.sig'',
          Ws_download_new_file_version ''/tmp/t/d/a.sig'' ''d/a'',
          Rdiff_patch ''/home/d/a'' ''/tmp/t/d/a.delta'' ''/home/d/a_2'',
          Os_remove ''/home/d/a'', Os_renames ''/home/d/a_2'' ''/home/d/a'',
          Print ''Success download!''], Inr 1)"
    by (simp add: sync_transfer_def meta_other_size_def file_example_def rm py_round_def
        download_branch_def sync_both_file_download_def answers_bad_signature_def
        answers_example_def silent_remove_def Let_def)
  show ?thesis
    by (simp add: sync_both_file_def r c g e update_remote_md5_def next_gen_def t)
qed

text \<open>
  Claim C7 at a file on the download path whose signature cannot be made: the result of
  \<open>_sync_both_file_download\<close> is the same whatever \<open>rdiff.signature\<close> returned, and in the
  run below \<open>rdiff.signature\<close> returns 1, the attempt goes on to the download, the patch
  and the replacement of the file, returns 1, and the pass leaves \<open>repeat\<close> empty. On the
  upload path the two steps return 1 only when the signature, the request of the version
  delta, the delta and the upload all succeeded.
\<close>

theorem failed_signature_on_download_is_ignored:
  "sync_both_file_download temp_dir (A\<lparr>signature_result := s\<rparr>) filepath remote_path
     = sync_both_file_download temp_dir A filepath remote_path
   \<and> signature_result (answers_now (env_bad_signature 0)) = 1
   \<and> sync_both_files engine_example ''/home'' env_bad_signature 0 [(''d/a'', meta_other_size)] []
        Map.empty
     = (None, [], [''d/a'' \<mapsto> ''None''],
        [[Filer_get_file_lock ''d/a'', Filer_set_file_lock ''d/a'', Filer_get_file_lock ''d/a'',
          Call_sync_both_file ''/home/d/a'' ''d/a'',
          Filer_get_file_md5_tag ''d/a'', Filer_set_file_md5_tag ''d/a'' ''abc'',
          Rdiff_signature ''/home/d/a'' ''/tmp/t/d/a.sig'',
          Ws_download_new_file_version ''/tmp/t/d/a.sig'' ''d/a'',
          Rdiff_patch ''/home/d/a'' ''/tmp/t/d/a.delta'' ''/home/d/a_2'',
          Os_remove ''/home/d/a'', Os_renames ''/home/d/a_2'' ''/home/d/a'',
          Print ''Success download!'']])
   \<and> snd (sync_make_version_delta temp_dir A filepath remote_path)
     = (if signature_result A = 0 \<and> make_version_delta_status A = 200 then 1 else 0)
   \<and> snd (sync_both_file_upload temp_dir A filepath remote_path)
     = (if delta_result A = 0 \<and> upload_new_version_status A = 200 then 1 else 0)"
proof -
  have d: "snd (sync_make_version_delta temp_dir A filepath remote_path)
     = (if signature_result A = 0 \<and> make_version_delta_status A = 200 then 1 else 0)"
    by (simp add: sync_make_version_delta_def Let_def)
  have u: "snd (sync_both_file_upload temp_dir A filepath remote_path)
     = (if delta_result A = 0 \<and> upload_new_version_status A = 200 then 1 else 0)"
    by (simp add: sync_both_file_upload_def Let_def)
  have a: "sync_both_file_download temp_dir (A\<lparr>signature_result := s\<rparr>) filepath remote_path
     = sync_both_file_download temp_dir A filepath remote_path"
    by (simp add: sync_both_file_download_def Let_def cong: if_cong)
  have b: "signature_result (answers_now (env_bad_signature 0)) = 1"
    by (simp add: env_bad_signature_def answers_bad_signature_def)
  have m: "Md5 meta_other_size = ''None''" by (simp add: meta_other_size_def)
  have c: "sync_both_files engine_example ''/home'' env_bad_signature 0 [(''d/a'', meta_other_size)] []
        Map.empty
     = (None, [], [''d/a'' \<mapsto> ''None''],
        [[Filer_get_file_lock ''d/a'', Filer_set_file_lock ''d/a'', Filer_get_file_lock ''d/a'',
          Call_sync_both_file ''/home/d/a'' ''d/a'',
          Filer_get_file_md5_tag ''d/a'', Filer_set_file_md5_tag ''d/a'' ''abc'',
          Rdiff_signature ''/home/d/a'' ''/tmp/t/d/a.sig'',
          Ws_download_new_file_version ''/tmp/t/d/a.sig'' ''d/a'',
          Rdiff_patch ''/home/d/a'' ''/tmp/t/d/a.delta'' ''/home/d/a_2'',
          Os_remove ''/home/d/a'', Os_renames ''/home/d/a_2'' ''/home/d/a'',
          Print ''Success download!'']])"
    by (simp add: env_bad_signature_def engine_example_def current_meta_def
        bad_signature_download m lock_events_def Let_def)
  from a b c d u show ?thesis by (intro conjI)
qed

subsection \<open>The retries\<close>

lemma synced_example:
  "sync_both_file plain_lib ''/tmp/t'' answers_example file_x ''C:/home/d/a'' ''d/a'' entry_a
   = ([Filer_get_file_md5_tag ''d/a'', Filer_remove_file_tags ''d/a'',
       Filer_set_file_md5_tag ''d/a'' ''x''], entry_a, Inr Already_synced)"
proof -
  have g: "md5_file_generator plain_lib ''x'' 1048576 = [md5 plain_lib ''x'', md5 plain_lib ''x'']"
    by (simp add: md5_file_generator_def file_chunks.simps md5_digest_def md5_new_def
        md5_update_def)
  have e: "b64encode plain_lib (md5 plain_lib ''x'') = ''x''"
    by (simp add: plain_lib_def)
  show ?thesis
    by (simp add: sync_both_file_def file_x_def g e resolve_remote_md5_def entry_a_def
        answers_example_def already_synced_condition_def update_remote_md5_def next_gen_def
        Let_def)
qed

lemma retry_round:
  assumes "1 \<le> k" and "current_meta store item_a = entry_a"
  shows "sync_both_files engine_example ''C:/home'' env_retry k [item_a] [item_a] store
         = (None, [item_a], store(''d/a'' \<mapsto> ''None''),
            [[Filer_get_file_lock ''d/a'', Filer_set_file_lock ''d/a'',
              Filer_get_file_lock ''d/a'', Call_sync_both_file ''C:/home/d/a'' ''d/a'',
              Filer_get_file_md5_tag ''d/a'', Filer_remove_file_tags ''d/a'',
              Filer_set_file_md5_tag ''d/a'' ''x'']])"
proof -
  have k: "env_retry k = attempt_free" using assms(1) by (simp add: env_retry_def)
  have f: "fst item_a = ''d/a''" by (simp add: item_a_def)
  have m: "Md5 entry_a = ''None''" by (simp add: entry_a_def)
  show ?thesis
    by (simp add: k f assms(2) attempt_free_def engine_example_def synced_example m
        lock_events_def Let_def)
qed

lemma current_meta_after_round:
  "current_meta (store(''d/a'' \<mapsto> ''None'')) item_a = entry_a"
  by (simp add: current_meta_def item_a_def entry_a_def)

lemma retry_loop_never_returns:
  assumes "retry_loop engine_example ''C:/home'' env_retry k [item_a] store = Some y"
  shows "\<not> (1 \<le> k \<and> current_meta store item_a = entry_a)"
proof -
  let ?P = "\<lambda>E base_path env k repeat store (y :: py_error + int).
      \<not> (E = engine_example \<and> base_path = ''C:/home'' \<and> env = env_retry \<and> 1 \<le> k
         \<and> repeat = [item_a] \<and> current_meta store item_a = entry_a)"
  have "?P engine_example ''C:/home'' env_retry k [item_a] store y"
  proof (rule retry_loop.raw_induct [where P = ?P, OF _ assms])
    fix rl :: "engine \<Rightarrow> string \<Rightarrow> (nat \<Rightarrow> attempt) \<Rightarrow> nat \<Rightarrow> both_item list
        \<Rightarrow> (string \<rightharpoonup> string) \<Rightarrow> (py_error + int) option"
      and E base_path env k repeat store z
    assume IH: "\<And>E base_path env k repeat store z.
        rl E base_path env k repeat store = Some z \<Longrightarrow> ?P E base_path env k repeat store z"
      and body: "(if length repeat > 0 then
          (case sync_both_files E base_path env k repeat repeat store of
             (None, repeat', store', steps) \<Rightarrow>
               rl E base_path env (k + length repeat) repeat' store'
           | (Some e, repeat', store', steps) \<Rightarrow> Some (Inl e))
        else Some (Inr 1)) = Some z"
    show "?P E base_path env k repeat store z"
    proof
      assume inv: "E = engine_example \<and> base_path = ''C:/home'' \<and> env = env_retry \<and> 1 \<le> k
         \<and> repeat = [item_a] \<and> current_meta store item_a = entry_a"
      then have round: "sync_both_files E base_path env k repeat repeat store
         = (None, [item_a], store(''d/a'' \<mapsto> ''None''),
            [[Filer_get_file_lock ''d/a'', Filer_set_file_lock ''d/a'',
              Filer_get_file_lock ''d/a'', Call_sync_both_file ''C:/home/d/a'' ''d/a'',
              Filer_get_file_md5_tag ''d/a'', Filer_remove_file_tags ''d/a'',
              Filer_set_file_md5_tag ''d/a'' ''x'']])"
        using retry_round [of k store] by simp
      from inv have len: "length repeat > 0" by simp
      from body have "rl E base_path env (k + length repeat) [item_a] (store(''d/a'' \<mapsto> ''None''))
          = Some z"
        unfolding if_P [OF len] round by simp
      from IH [OF this] inv show False
        by (simp add: current_meta_after_round)
    qed
  qed
  then show ?thesis by simp
qed

text \<open>
  Claim C8 at a folder with one file on both sides, which another client holds locked
  during the first pass. The first pass defers the file. A later pass over the deferred
  file finds the lock free and the file synced, and leaves \<open>repeat\<close> as it was: nothing
  takes the file out of \<open>repeat\<close>. Every later pass does the same, and \<open>sync_folder\<close>
  never returns.
\<close>

theorem retry_queue_is_never_drained:
  "sync_both_files engine_example ''C:/home'' env_retry 0 [item_a] [] Map.empty
     = (None, [item_a], Map.empty, [[Filer_get_file_lock ''d/a'']])
   \<and> sync_both_files engine_example ''C:/home'' env_retry 1 [item_a] [item_a] Map.empty
     = (None, [item_a], [''d/a'' \<mapsto> ''None''],
        [[Filer_get_file_lock ''d/a'', Filer_set_file_lock ''d/a'',
          Filer_get_file_lock ''d/a'', Call_sync_both_file ''C:/home/d/a'' ''d/a'',
          Filer_get_file_md5_tag ''d/a'', Filer_remove_file_tags ''d/a'',
          Filer_set_file_md5_tag ''d/a'' ''x'']])
   \<and> sync_folder engine_example listing_example walk_example env_retry folder_example
        base_example True = None"
proof -
  have first: "sync_both_files engine_example ''C:/home'' env_retry 0 [item_a] [] Map.empty
     = (None, [item_a], Map.empty, [[Filer_get_file_lock ''d/a'']])"
    by (simp add: env_retry_def attempt_locked_def item_a_def Let_def)
  have start: "current_meta Map.empty item_a = entry_a"
    by (simp add: current_meta_def item_a_def)
  have second: "sync_both_files engine_example ''C:/home'' env_retry 1 [item_a] [item_a] Map.empty
     = (None, [item_a], [''d/a'' \<mapsto> ''None''],
        [[Filer_get_file_lock ''d/a'', Filer_set_file_lock ''d/a'',
          Filer_get_file_lock ''d/a'', Call_sync_both_file ''C:/home/d/a'' ''d/a'',
          Filer_get_file_md5_tag ''d/a'', Filer_remove_file_tags ''d/a'',
          Filer_set_file_md5_tag ''d/a'' ''x'']])"
    using retry_round [of 1 Map.empty] start by simp
  have loop: "retry_loop engine_example ''C:/home'' env_retry 1 [item_a] Map.empty = None"
  proof (cases "retry_loop engine_example ''C:/home'' env_retry 1 [item_a] Map.empty")
    case None
    then show ?thesis .
  next
    case (Some y)
    from retry_loop_never_returns [OF Some] start show ?thesis by simp
  qed
  have u: "api_username engine_example = ''u''" by (simp add: engine_example_def)
  have both: "[(''d/a'', entry_a)] = [item_a]" by (simp add: item_a_def)
  have third: "sync_folder engine_example listing_example walk_example env_retry folder_example
        base_example True = None"
    using loop
    by (simp add: sync_folder_def u listing_example_result both first
        del: sync_both_files.simps)
  from first second third show ?thesis by (intro conjI)
qed

end
